theory Spec2Isabelle
  imports Main "HOL-Library.Sublist"
begin

section \<open>Build validation of the browser packages: a model of the validation script\<close>

text \<open>
  The script under \<open>src/unnamed/part_000\<close> inspects the compiled output of every package
  below \<open>packages/\<close> in five stages and exits with 0 or 1. It is synchronous and
  single-threaded, so a run is a function of the file system and of the answers of the
  external commands it starts. Both are fields of the record \<open>world\<close>: the file system
  fields are updated by the operations that write, the command fields are read only.
  What a run does to the outside (commands started, directories made and removed, lines
  printed) is returned as a list of events.

  Conventions of the model.
  \<^item> A JavaScript exception is a value of type \<open>exn\<close>; every operation returns
    \<open>exn + 'a\<close> together with the new world and the events it produced.
  \<^item> Colours of printed lines are left out; the non-ASCII marks in front of the messages
    are part of the message constructor's meaning.
  \<^item> \<open>dist\<close> maps a package directory to the entries of its \<open>dist\<close> directory, each with
    its text; \<open>None\<close> when the directory does not exist. The field answers both
    \<open>fs.existsSync\<close> and \<open>fs.readdirSync\<close>: a \<open>dist\<close> that exists is a directory that
    can be listed. A \<open>dist\<close> that is a regular file, on which the listing would throw,
    is not among the worlds of the model.
  \<^item> The text of an error message is kept short: for a failed command it is the command
    without its captured output. \<open>trim\<close> strips the ASCII white space only. Both
    affect printed diagnostics alone.
  \<^item> \<open>manifest\<close> is the parsed \<open>package.json\<close> of a package directory; \<open>None\<close> when
    reading or parsing it throws.
  \<^item> \<open>pkg_entries\<close> lists the entries of a package directory; only archives are looked
    for in it.
  \<^item> The temporary directory made by \<open>fs.mkdtempSync\<close> is named by a counter;
    \<open>sandboxes\<close> maps the temporary directories that exist to their entries.
  \<^item> The file system calls that the script makes on paths it has just listed or created
    succeed: listing \<open>packages/\<close>, reading a listed file of \<open>dist\<close>, making and
    removing the temporary directory, moving and writing a file into it.
  \<^item> An external command is a field of the world that gives its exit status and output
    (\<open>None\<close> as status stands for \<open>null\<close>, a command ended by a signal). Of the
    package manager the model fixes two things: \<open>npm pack\<close> either fails or leaves
    files in the package directory, and \<open>npm install ./a\<close> fails when \<open>a\<close> is not in
    the directory it runs in.
  \<^item> \<open>node_load\<close> is the result of importing a package by name in the temporary
    directory: \<open>None\<close> when the import throws, otherwise the names the module exports.
\<close>

subsection \<open>Values\<close>

datatype json =
    JNull
  | JBool bool
  | JNum int
  | JStr string
  | JArr "json list"
  | JObj "(string \<times> json) list"

text \<open>What an expression of the script can evaluate to: \<open>undefined\<close>, a value read
  from JSON, or the module namespace object of \<open>import * as pkg\<close> with its exported
  names.\<close>

datatype js_value = Undefined | Val json | Namespace "string list"

datatype exn =
    Fs_error string
  | Syntax_error string
  | Type_error string
  | Command_failed string string
  | Error string

fun message :: "exn \<Rightarrow> string" where
  "message (Fs_error m) = m"
| "message (Syntax_error m) = m"
| "message (Type_error m) = m"
| "message (Command_failed c out) = ''Command failed: '' @ c"
| "message (Error m) = m"

text \<open>\<open>error.stdout\<close>: the captured output of a failed \<open>execSync\<close>, undefined on any
  other exception.\<close>

fun exn_stdout :: "exn \<Rightarrow> string option" where
  "exn_stdout (Command_failed c out) = Some out"
| "exn_stdout _ = None"

record manifest =
  name :: "string option"
  dependencies :: "string \<rightharpoonup> string"
  peerDependencies :: "string \<rightharpoonup> string"
  is_private :: bool

record spawn_result =
  status :: "nat option"
  stdout :: string
  stderr :: string

datatype msg =
    No_dist_warning
  | Syntax_fail string
  | Syntax_ok string
  | All_syntax_passed
  | Baseline_fail
  | Diagnostic string
  | Baseline_ok
  | Map_no_sources string
  | Map_invalid string string
  | Missing_reference string
  | Skipped_private
  | Import_failed string
  | Package_header string
  | Sourcemaps_valid
  | Imports_work
  | Running_publint
  | Publint_ok string
  | Publint_warnings string
  | Exports_valid
  | Bundle_size string nat nat bool
  | Require_found string
  | Require_none string
  | Integrity_ok
  | No_dist_fatal
  | Found_packages nat
  | Summary_line bool string
  | All_passed
  | Some_failed

datatype event =
    Section string
  | Log msg
  | Es_check string
  | Eslint_dist
  | Publint string
  | Grep_require string
  | Mkdtemp nat
  | Rm nat
  | Npm_pack string
  | Rename string string nat string
  | Write_file nat string
  | Npm_install_dep nat string
  | Npm_install_target nat
  | Node_import nat string

record world =
  packages_dir :: "string list"
  dist :: "string \<Rightarrow> (string \<times> string) list option"
  manifest :: "string \<Rightarrow> manifest option"
  pkg_entries :: "string \<Rightarrow> string list"
  sandboxes :: "nat \<Rightarrow> string list option"
  next_tmp :: nat
  json_parse :: "string \<Rightarrow> json option"
  es_check :: "string \<Rightarrow> spawn_result"
  eslint_dist :: spawn_result
  publint :: "string \<Rightarrow> spawn_result"
  grep_require :: "string \<Rightarrow> spawn_result"
  npm_pack :: "string \<Rightarrow> string list option"
  npm_install :: "string \<Rightarrow> bool"
  node_load :: "string \<Rightarrow> string list option"
  gzip_length :: "string \<Rightarrow> nat"

subsection \<open>Operations with exceptions, state and events\<close>

type_synonym 'a io = "world \<Rightarrow> (exn + 'a) \<times> world \<times> event list"

definition return :: "'a \<Rightarrow> 'a io" where
  "return x w = (Inr x, w, [])"

definition throw :: "exn \<Rightarrow> 'a io" where
  "throw e w = (Inl e, w, [])"

definition bind :: "'a io \<Rightarrow> ('a \<Rightarrow> 'b io) \<Rightarrow> 'b io" where
  "bind m k w =
     (case m w of
        (Inl e, w1, es1) \<Rightarrow> (Inl e, w1, es1)
      | (Inr x, w1, es1) \<Rightarrow> (case k x w1 of (r, w2, es2) \<Rightarrow> (r, w2, es1 @ es2)))"

definition seq :: "unit io \<Rightarrow> 'b io \<Rightarrow> 'b io" where
  "seq m k = bind m (\<lambda>_. k)"

text \<open>\<open>try { m } catch (error) { h error }\<close>\<close>

definition try_catch :: "'a io \<Rightarrow> (exn \<Rightarrow> 'a io) \<Rightarrow> 'a io" where
  "try_catch m h w =
     (case m w of
        (Inl e, w1, es1) \<Rightarrow> (case h e w1 of (r, w2, es2) \<Rightarrow> (r, w2, es1 @ es2))
      | (Inr x, w1, es1) \<Rightarrow> (Inr x, w1, es1))"

text \<open>\<open>try { m } finally { f }\<close>: \<open>f\<close> runs whatever \<open>m\<close> did; the outcome is that of
  \<open>m\<close> unless \<open>f\<close> itself throws.\<close>

definition finally_do :: "'a io \<Rightarrow> unit io \<Rightarrow> 'a io" where
  "finally_do m f w =
     (case m w of
        (r, w1, es1) \<Rightarrow>
          (case f w1 of
             (Inl e, w2, es2) \<Rightarrow> (Inl e, w2, es1 @ es2)
           | (Inr _, w2, es2) \<Rightarrow> (r, w2, es1 @ es2)))"

definition gets :: "(world \<Rightarrow> 'a) \<Rightarrow> 'a io" where
  "gets f w = (Inr (f w), w, [])"

definition lift :: "(world \<Rightarrow> exn + 'a) \<Rightarrow> 'a io" where
  "lift f w = (f w, w, [])"

definition emit :: "event \<Rightarrow> unit io" where
  "emit ev w = (Inr (), w, [ev])"

definition log_msg :: "msg \<Rightarrow> unit io" where
  "log_msg m = emit (Log m)"

definition logSection :: "string \<Rightarrow> unit io" where
  "logSection title = emit (Section title)"

text \<open>\<open>for (const x of xs) { f x }\<close>\<close>

fun for_each :: "'a list \<Rightarrow> ('a \<Rightarrow> unit io) \<Rightarrow> unit io" where
  "for_each [] f = return ()"
| "for_each (x # xs) f = bind (f x) (\<lambda>_. for_each xs f)"

text \<open>A \<open>for\<close> loop that updates a local variable \<open>s\<close>.\<close>

text \<open>A \<open>for\<close> loop whose body may \<open>return\<close> from the enclosing function: the body
  answers \<open>Some r\<close> to return \<open>r\<close>, \<open>None\<close> to go on with the next element.\<close>

fun for_return :: "'a list \<Rightarrow> ('a \<Rightarrow> 'r option io) \<Rightarrow> 'r option io" where
  "for_return [] f = return None"
| "for_return (x # xs) f =
     bind (f x) (\<lambda>r. case r of Some b \<Rightarrow> return (Some b) | None \<Rightarrow> for_return xs f)"

fun fold_io :: "('a \<Rightarrow> 's \<Rightarrow> 's io) \<Rightarrow> 'a list \<Rightarrow> 's \<Rightarrow> 's io" where
  "fold_io f [] s = return s"
| "fold_io f (x # xs) s = bind (f x s) (\<lambda>s'. fold_io f xs s')"

subsection \<open>Exceptions without state: reading\<close>

definition ebind :: "exn + 'a \<Rightarrow> ('a \<Rightarrow> exn + 'b) \<Rightarrow> exn + 'b" where
  "ebind m k = (case m of Inl e \<Rightarrow> Inl e | Inr x \<Rightarrow> k x)"

fun map_exn :: "('a \<Rightarrow> exn + 'b) \<Rightarrow> 'a list \<Rightarrow> exn + 'b list" where
  "map_exn f [] = Inr []"
| "map_exn f (x # xs) = ebind (f x) (\<lambda>y. ebind (map_exn f xs) (\<lambda>ys. Inr (y # ys)))"

fun filter_exn :: "('a \<Rightarrow> exn + bool) \<Rightarrow> 'a list \<Rightarrow> exn + 'a list" where
  "filter_exn p [] = Inr []"
| "filter_exn p (x # xs) =
     ebind (p x) (\<lambda>b. ebind (filter_exn p xs) (\<lambda>ys. Inr (if b then x # ys else ys)))"

subsection \<open>Strings\<close>

text \<open>\<open>s.replace(c, r)\<close> with a one-character string pattern replaces the first
  occurrence only.\<close>

fun replace_first :: "char \<Rightarrow> string \<Rightarrow> string \<Rightarrow> string" where
  "replace_first c r [] = []"
| "replace_first c r (x # xs) = (if x = c then r @ xs else x # replace_first c r xs)"

definition startsWith :: "string \<Rightarrow> string \<Rightarrow> bool" where
  "startsWith s p = prefix p s"

definition endsWith :: "string \<Rightarrow> string \<Rightarrow> bool" where
  "endsWith s p = suffix p s"

fun js_includes :: "string \<Rightarrow> string \<Rightarrow> bool" where
  "js_includes [] p = (p = [])"
| "js_includes (c # cs) p = (prefix p (c # cs) \<or> js_includes cs p)"

definition is_space :: "char \<Rightarrow> bool" where
  "is_space c =
     (c = CHR '' '' \<or> c = CHR 0x09 \<or> c = CHR 0x0A \<or> c = CHR 0x0B \<or> c = CHR 0x0C
      \<or> c = CHR 0x0D)"

definition trim :: "string \<Rightarrow> string" where
  "trim s = rev (dropWhile is_space (rev (dropWhile is_space s)))"

text \<open>\<open>name.replace('@', '').replace('/', '-')\<close>\<close>

definition safe_name :: "string \<Rightarrow> string" where
  "safe_name n = replace_first CHR ''/'' ''-'' (replace_first CHR ''@'' [] n)"

subsection \<open>Package discovery\<close>

definition getPackagesWithDist :: "world \<Rightarrow> string list" where
  "getPackagesWithDist w = filter (\<lambda>pkg. dist w pkg \<noteq> None) (packages_dir w)"

definition getPackageJson :: "string \<Rightarrow> world \<Rightarrow> exn + manifest" where
  "getPackageJson pkgName w =
     (case manifest w pkgName of
        None \<Rightarrow> Inl (Fs_error pkgName)
      | Some m \<Rightarrow> Inr m)"

subsection \<open>Workspace dependencies\<close>

text \<open>\<open>{...pkgJson.dependencies, ...pkgJson.peerDependencies}\<close>: the later spread wins
  on a common key.\<close>

definition allDeps :: "manifest \<Rightarrow> (string \<rightharpoonup> string)" where
  "allDeps pkgJson = dependencies pkgJson ++ peerDependencies pkgJson"

text \<open>\<open>Object.keys(allDeps).includes(n)\<close>; an undefined name is never a key.\<close>

definition keys_include :: "(string \<rightharpoonup> string) \<Rightarrow> string option \<Rightarrow> bool" where
  "keys_include m n = (case n of None \<Rightarrow> False | Some s \<Rightarrow> m s \<noteq> None)"

definition getWorkspaceDependencies :: "manifest \<Rightarrow> world \<Rightarrow> exn + string list" where
  "getWorkspaceDependencies pkgJson w =
     (let workspacePackages = getPackagesWithDist w in
      ebind (map_exn (\<lambda>pkg. ebind (getPackageJson pkg w) (\<lambda>j. Inr (name j))) workspacePackages)
        (\<lambda>workspaceNames.
           filter_exn
             (\<lambda>pkg. ebind (getPackageJson pkg w)
                (\<lambda>j. Inr (name j \<in> set workspaceNames \<and> keys_include (allDeps pkgJson) (name j))))
             workspacePackages))"

subsection \<open>Sourcemaps\<close>

definition readdir_dist :: "string \<Rightarrow> world \<Rightarrow> exn + string list" where
  "readdir_dist pkg w =
     (case dist w pkg of None \<Rightarrow> Inl (Fs_error pkg) | Some entries \<Rightarrow> Inr (map fst entries))"

definition exists_dist :: "string \<Rightarrow> string \<Rightarrow> world \<Rightarrow> bool" where
  "exists_dist pkg file w =
     (case dist w pkg of None \<Rightarrow> False | Some entries \<Rightarrow> file \<in> set (map fst entries))"

definition readFile_dist :: "string \<Rightarrow> string \<Rightarrow> world \<Rightarrow> exn + string" where
  "readFile_dist pkg file w =
     (case dist w pkg of
        None \<Rightarrow> Inl (Fs_error file)
      | Some entries \<Rightarrow>
          (case map_of entries file of None \<Rightarrow> Inl (Fs_error file) | Some text \<Rightarrow> Inr text))"

definition JSON_parse :: "string \<Rightarrow> world \<Rightarrow> exn + json" where
  "JSON_parse text w =
     (case json_parse w text of None \<Rightarrow> Inl (Syntax_error text) | Some j \<Rightarrow> Inr j)"

text \<open>A property of a parsed object; on a repeated key the last entry wins.\<close>

definition lookup :: "(string \<times> json) list \<Rightarrow> string \<Rightarrow> js_value" where
  "lookup kvs k = (case map_of (rev kvs) k of None \<Rightarrow> Undefined | Some v \<Rightarrow> Val v)"

text \<open>\<open>map.sources\<close>: throws on \<open>null\<close>, is undefined on every other non-object.\<close>

fun sources_of :: "json \<Rightarrow> exn + js_value" where
  "sources_of JNull = Inl (Type_error ''Cannot read properties of null'')"
| "sources_of (JObj kvs) = Inr (lookup kvs ''sources'')"
| "sources_of _ = Inr Undefined"

text \<open>\<open>x?.length\<close>\<close>

fun length_of :: "js_value \<Rightarrow> js_value" where
  "length_of Undefined = Undefined"
| "length_of (Val JNull) = Undefined"
| "length_of (Val (JStr s)) = Val (JNum (int (length s)))"
| "length_of (Val (JArr xs)) = Val (JNum (int (length xs)))"
| "length_of (Val (JObj kvs)) = lookup kvs ''length''"
| "length_of (Val (JBool b)) = Undefined"
| "length_of (Val (JNum n)) = Undefined"
| "length_of (Namespace xs) = Undefined"

fun truthy :: "js_value \<Rightarrow> bool" where
  "truthy Undefined = False"
| "truthy (Val JNull) = False"
| "truthy (Val (JBool b)) = b"
| "truthy (Val (JNum n)) = (n \<noteq> 0)"
| "truthy (Val (JStr s)) = (s \<noteq> [])"
| "truthy (Val (JArr xs)) = True"
| "truthy (Val (JObj kvs)) = True"
| "truthy (Namespace xs) = True"

text \<open>The body of the loop of \<open>validateSourcemaps\<close> (lines 123 to 146) for one compiled
  file: \<open>Some False\<close> is \<open>return false\<close>, \<open>None\<close> goes on with the next file.\<close>

definition check_map :: "string \<Rightarrow> string \<Rightarrow> bool option io" where
  "check_map pkgName mapFile =
     try_catch
       (bind (lift (readFile_dist pkgName mapFile)) (\<lambda>text.
        bind (lift (JSON_parse text)) (\<lambda>map.
        bind (lift (\<lambda>w. sources_of map)) (\<lambda>sources.
          if \<not> truthy (length_of sources)
          then seq (log_msg (Map_no_sources mapFile)) (return (Some False))
          else return None))))
       (\<lambda>error. seq (log_msg (Map_invalid mapFile (message error))) (return (Some False)))"

definition validate_file :: "string \<Rightarrow> string \<Rightarrow> bool option io" where
  "validate_file pkgName jsFile =
     (let mapFile = jsFile @ ''.map'' in
      bind (gets (exists_dist pkgName mapFile)) (\<lambda>ex.
        if \<not> ex then return None
        else
          bind (check_map pkgName mapFile) (\<lambda>r.
            case r of
              Some b \<Rightarrow> return (Some b)
            | None \<Rightarrow>
                bind (lift (readFile_dist pkgName jsFile)) (\<lambda>jsContent.
                  if \<not> js_includes jsContent ''sourceMappingURL=''
                  then seq (log_msg (Missing_reference jsFile)) (return (Some False))
                  else return None))))"

definition validateSourcemaps :: "string \<Rightarrow> bool io" where
  "validateSourcemaps pkgName =
     bind (lift (readdir_dist pkgName)) (\<lambda>entries.
       let jsFiles = filter (\<lambda>f. endsWith f ''.js'') entries in
       bind (for_return jsFiles (validate_file pkgName)) (\<lambda>r.
         case r of Some b \<Rightarrow> return b | None \<Rightarrow> return True))"

subsection \<open>The import test in a temporary directory\<close>

definition add_entry :: "string \<Rightarrow> string list \<Rightarrow> string list" where
  "add_entry f fs = (if f \<in> set fs then fs else fs @ [f])"

text \<open>\<open>fs.mkdtempSync\<close> makes a new, empty directory under the root.\<close>

definition mkdtempSync :: "nat io" where
  "mkdtempSync w =
     (let n = next_tmp w in
      (Inr n, w\<lparr>sandboxes := (sandboxes w)(n \<mapsto> []), next_tmp := Suc n\<rparr>, [Mkdtemp n]))"

text \<open>\<open>fs.rmSync(tempDir, {recursive: true, force: true})\<close>\<close>

definition rmSync :: "nat \<Rightarrow> unit io" where
  "rmSync n w = (Inr (), w\<lparr>sandboxes := (sandboxes w)(n := None)\<rparr>, [Rm n])"

text \<open>\<open>execSync('npm pack --quiet', {cwd: packages/pkg})\<close>: a non-zero exit throws;
  otherwise the files the command wrote are in the package directory.\<close>

definition exec_npm_pack :: "string \<Rightarrow> unit io" where
  "exec_npm_pack pkg w =
     (case npm_pack w pkg of
        None \<Rightarrow> (Inl (Command_failed ''npm pack --quiet'' []), w, [Npm_pack pkg])
      | Some fs \<Rightarrow>
          (Inr (),
           w\<lparr>pkg_entries := (pkg_entries w)(pkg := foldl (\<lambda>acc f. add_entry f acc) (pkg_entries w pkg) fs)\<rparr>,
           [Npm_pack pkg]))"

text \<open>\<open>fs.renameSync(packages/pkg/file, tempDir/dest)\<close>\<close>

definition renameSync :: "string \<Rightarrow> string \<Rightarrow> nat \<Rightarrow> string \<Rightarrow> unit io" where
  "renameSync pkg file n dest w =
     (case sandboxes w n of
        None \<Rightarrow> (Inl (Fs_error dest), w, [Rename pkg file n dest])
      | Some fs \<Rightarrow>
          (Inr (),
           w\<lparr>pkg_entries := (pkg_entries w)(pkg := removeAll file (pkg_entries w pkg)),
             sandboxes := (sandboxes w)(n \<mapsto> add_entry dest fs)\<rparr>,
           [Rename pkg file n dest]))"

definition writeFileSync :: "nat \<Rightarrow> string \<Rightarrow> unit io" where
  "writeFileSync n file w =
     (case sandboxes w n of
        None \<Rightarrow> (Inl (Fs_error file), w, [Write_file n file])
      | Some fs \<Rightarrow>
          (Inr (), w\<lparr>sandboxes := (sandboxes w)(n \<mapsto> add_entry file fs)\<rparr>, [Write_file n file]))"

text \<open>\<open>execSync('npm install ./archive', {cwd: tempDir})\<close>: the command fails when the
  archive is not in the directory; when it is there, the package manager decides.\<close>

definition exec_npm_install :: "event \<Rightarrow> nat \<Rightarrow> string \<Rightarrow> unit io" where
  "exec_npm_install ev n archive w =
     (if (case sandboxes w n of None \<Rightarrow> False | Some fs \<Rightarrow> archive \<in> set fs) \<and> npm_install w archive
      then (Inr (), w, [ev])
      else (Inl (Command_failed (''npm install ./'' @ archive) []), w, [ev]))"

text \<open>The script given to \<open>node --input-type=module -e\<close> (line 234):
  \<open>import * as pkg from 'name'; if (!pkg) process.exit(1);\<close>.
  A failed import ends the process with status 1; otherwise \<open>pkg\<close> is the namespace
  object of the module.\<close>

definition import_script :: "string list option \<Rightarrow> nat" where
  "import_script loaded =
     (case loaded of
        None \<Rightarrow> 1
      | Some exports \<Rightarrow> (if \<not> truthy (Namespace exports) then 1 else 0))"

definition exec_node_import :: "nat \<Rightarrow> string \<Rightarrow> unit io" where
  "exec_node_import n nm w =
     (if import_script (node_load w nm) = 0
      then (Inr (), w, [Node_import n nm])
      else (Inl (Command_failed ''node --input-type=module -e'' []), w, [Node_import n nm]))"

text \<open>\<open>json.name.replace(...)\<close> is a type error when the manifest has no name.\<close>

definition declared_name :: "manifest \<Rightarrow> string io" where
  "declared_name json =
     (case name json of
        None \<Rightarrow> throw (Type_error ''Cannot read properties of undefined'')
      | Some n \<Rightarrow> return n)"

definition find_tarball :: "string \<Rightarrow> string \<Rightarrow> world \<Rightarrow> string option" where
  "find_tarball pkg safeName w =
     find (\<lambda>f. startsWith f safeName \<and> endsWith f ''.tgz'') (pkg_entries w pkg)"

text \<open>The body of the first loop (lines 185 to 197): pack one workspace dependency and
  move its archive into the temporary directory, when one is found.\<close>

definition pack_dependency :: "nat \<Rightarrow> string \<Rightarrow> unit io" where
  "pack_dependency tempDir depPkg =
     seq (exec_npm_pack depPkg)
       (bind (lift (getPackageJson depPkg)) (\<lambda>depJson.
        bind (declared_name depJson) (\<lambda>depName.
        bind (gets (find_tarball depPkg (safe_name depName))) (\<lambda>tarball.
          case tarball of
            Some t \<Rightarrow> renameSync depPkg t tempDir (depPkg @ ''.tgz'')
          | None \<Rightarrow> return ()))))"

text \<open>The body of the second loop (line 226).\<close>

definition install_dependency :: "nat \<Rightarrow> string \<Rightarrow> unit io" where
  "install_dependency tempDir depPkg =
     exec_npm_install (Npm_install_dep tempDir depPkg) tempDir (depPkg @ ''.tgz'')"

text \<open>Lines 224 to 238: install the dependencies, then the package, then load it.\<close>

definition install_and_verify :: "string list \<Rightarrow> nat \<Rightarrow> string \<Rightarrow> bool io" where
  "install_and_verify workspaceDeps tempDir pkgJsonName =
     seq (for_each workspaceDeps (install_dependency tempDir))
    (seq (exec_npm_install (Npm_install_target tempDir) tempDir ''package.tgz'')
    (seq (exec_node_import tempDir pkgJsonName)
         (return True)))"

text \<open>Lines 182 to 238, the block under \<open>try\<close>.\<close>

definition import_test_body :: "string \<Rightarrow> manifest \<Rightarrow> nat \<Rightarrow> bool io" where
  "import_test_body pkgName pkgJson tempDir =
     bind (lift (getWorkspaceDependencies pkgJson)) (\<lambda>workspaceDeps.
     seq (for_each workspaceDeps (pack_dependency tempDir))
    (seq (exec_npm_pack pkgName)
    (bind (declared_name pkgJson) (\<lambda>pkgJsonName.
     bind (gets (find_tarball pkgName (safe_name pkgJsonName))) (\<lambda>tarball.
       case tarball of
         None \<Rightarrow> throw (Error (''Failed to create tarball for '' @ pkgName))
       | Some t \<Rightarrow>
           seq (renameSync pkgName t tempDir ''package.tgz'')
          (seq (writeFileSync tempDir ''package.json'')
               (install_and_verify workspaceDeps tempDir pkgJsonName)))))))"

definition testPackageImports :: "string \<Rightarrow> bool io" where
  "testPackageImports pkgName =
     bind (lift (getPackageJson pkgName)) (\<lambda>pkgJson.
       if is_private pkgJson then seq (log_msg Skipped_private) (return True)
       else
         bind mkdtempSync (\<lambda>tempDir.
           finally_do
             (try_catch
                (import_test_body pkgName pkgJson tempDir)
                (\<lambda>error. seq (log_msg (Import_failed (message error))) (return False)))
             (rmSync tempDir)))"

subsection \<open>The five stages\<close>

definition spawn :: "event \<Rightarrow> (world \<Rightarrow> spawn_result) \<Rightarrow> spawn_result io" where
  "spawn ev tool w = (Inr (tool w), w, [ev])"

text \<open>\<open>execSync\<close> throws on a status other than 0, with the captured output.\<close>

definition exec_sync :: "event \<Rightarrow> string \<Rightarrow> (world \<Rightarrow> spawn_result) \<Rightarrow> unit io" where
  "exec_sync ev cmd tool w =
     (if status (tool w) = Some 0 then (Inr (), w, [ev])
      else (Inl (Command_failed cmd (stdout (tool w))), w, [ev]))"

text \<open>The body of the loop of \<open>checkSyntaxCompliance\<close> (lines 71 to 85).\<close>

definition check_syntax :: "string \<Rightarrow> string list \<Rightarrow> string list io" where
  "check_syntax pkg failures =
     bind (spawn (Es_check pkg) (\<lambda>w. es_check w pkg)) (\<lambda>result.
       if status result \<noteq> Some 0
       then seq (log_msg (Syntax_fail pkg)) (return (failures @ [pkg]))
       else seq (log_msg (Syntax_ok pkg)) (return failures))"

definition checkSyntaxCompliance :: "bool io" where
  "checkSyntaxCompliance =
     seq (logSection ''1. Syntax Compliance (es-check)'')
       (bind (gets getPackagesWithDist) (\<lambda>packages.
          if length packages = 0 then seq (log_msg No_dist_warning) (return True)
          else
            bind (fold_io check_syntax packages []) (\<lambda>failures.
              if length failures > 0 then return False
              else seq (log_msg All_syntax_passed) (return True))))"

definition checkBaselineAPIs :: "bool io" where
  "checkBaselineAPIs =
     seq (logSection ''2. Web API Baseline (eslint)'')
       (bind (spawn Eslint_dist eslint_dist) (\<lambda>result.
          if status result \<noteq> Some 0
          then seq (log_msg Baseline_fail)
                 (seq (if stderr result \<noteq> [] then log_msg (Diagnostic (trim (stderr result)))
                       else return ())
                    (return False))
          else seq (log_msg Baseline_ok) (return True)))"

text \<open>The body of the first loop of \<open>checkPackageExports\<close> (lines 254 to 268); a
  \<open>continue\<close> leaves the body with \<open>allPassed\<close> already false.\<close>

definition check_package :: "string \<Rightarrow> bool \<Rightarrow> bool io" where
  "check_package pkg allPassed =
     seq (log_msg (Package_header pkg))
       (bind (validateSourcemaps pkg) (\<lambda>valid.
          if \<not> valid then return False
          else
            seq (log_msg Sourcemaps_valid)
              (bind (testPackageImports pkg) (\<lambda>imported.
                 if \<not> imported then return False
                 else seq (log_msg Imports_work) (return allPassed)))))"

text \<open>The body of the second loop (lines 274 to 283).\<close>

definition run_publint :: "string \<Rightarrow> unit io" where
  "run_publint pkg =
     try_catch
       (seq (exec_sync (Publint pkg) ''npx publint'' (\<lambda>w. publint w pkg))
          (log_msg (Publint_ok pkg)))
       (\<lambda>error.
          seq (log_msg (Publint_warnings pkg))
            (case exn_stdout error of
               Some out \<Rightarrow> log_msg (Diagnostic (trim out))
             | None \<Rightarrow> return ()))"

definition checkPackageExports :: "bool io" where
  "checkPackageExports =
     seq (logSection ''3. Package Exports & Integrity'')
       (bind (gets getPackagesWithDist) (\<lambda>packages.
        bind (fold_io check_package packages True) (\<lambda>allPassed.
        seq (log_msg Running_publint)
       (seq (for_each packages run_publint)
       (seq (if allPassed then log_msg Exports_valid else return ())
            (return allPassed))))))"

text \<open>The body of the outer loop of \<open>checkBundleSize\<close> (lines 299 to 319); the sizes
  are kept in bytes, the last field says that the compressed size is above 50 KB.\<close>

definition report_size :: "string \<Rightarrow> unit io" where
  "report_size pkg =
     bind (lift (readdir_dist pkg)) (\<lambda>entries.
       let jsFiles = filter (\<lambda>f. endsWith f ''.js'' \<and> \<not> endsWith f ''.map'') entries in
       bind (fold_io
               (\<lambda>jsFile totals.
                  bind (lift (readFile_dist pkg jsFile)) (\<lambda>content.
                  bind (gets (\<lambda>w. gzip_length w content)) (\<lambda>gz.
                    return (fst totals + length content, snd totals + gz))))
               jsFiles (0, 0))
         (\<lambda>totals. log_msg (Bundle_size pkg (fst totals) (snd totals) (snd totals > 50 * 1024))))"

definition checkBundleSize :: "bool io" where
  "checkBundleSize =
     seq (logSection ''4. Bundle Size'')
       (bind (gets getPackagesWithDist) (\<lambda>packages.
          seq (for_each packages report_size) (return True)))"

text \<open>The body of the loop of \<open>validateModuleIntegrity\<close> (lines 333 to 353): status 0 of
  \<open>grep\<close> means that a match was found.\<close>

definition scan_package :: "string \<Rightarrow> bool \<Rightarrow> bool io" where
  "scan_package pkg allPassed =
     bind (spawn (Grep_require pkg) (\<lambda>w. grep_require w pkg)) (\<lambda>result.
       if status result = Some 0
       then seq (log_msg (Require_found pkg))
              (seq (if stdout result \<noteq> [] then log_msg (Diagnostic (take 200 (trim (stdout result))))
                    else return ())
                 (return False))
       else seq (log_msg (Require_none pkg)) (return allPassed))"

definition validateModuleIntegrity :: "bool io" where
  "validateModuleIntegrity =
     seq (logSection ''5. Module Integrity'')
       (bind (gets getPackagesWithDist) (\<lambda>packages.
        bind (fold_io scan_package packages True) (\<lambda>allPassed.
          seq (if allPassed then log_msg Integrity_ok else return ())
              (return allPassed))))"

subsection \<open>The orchestrator\<close>

text \<open>\<open>main\<close> ends in \<open>process.exit\<close> on both of its paths, so the body returns the
  status it exits with. An exception that nothing catches ends the process with
  status 1.\<close>

definition main_body :: "nat io" where
  "main_body =
     seq (logSection ''OpenTelemetry Browser Validation'')
       (bind (gets getPackagesWithDist) (\<lambda>packages.
          if length packages = 0 then seq (log_msg No_dist_fatal) (return 1)
          else
            seq (log_msg (Found_packages (length packages)))
           (bind checkSyntaxCompliance (\<lambda>r1.
            bind checkBaselineAPIs (\<lambda>r2.
            bind checkPackageExports (\<lambda>r3.
            bind checkBundleSize (\<lambda>r4.
            bind validateModuleIntegrity (\<lambda>r5.
              let results =
                    [(''Syntax compliance'', r1), (''Web API baseline'', r2),
                     (''Package exports'', r3), (''Bundle size'', r4),
                     (''Module integrity'', r5)] in
              seq (logSection ''Validation Summary'')
             (seq (for_each results (\<lambda>r. log_msg (Summary_line (snd r) (fst r))))
                (let allPassed = list_all snd results in
                 seq (log_msg (if allPassed then All_passed else Some_failed))
                     (return (if allPassed then 0 else 1))))))))))))"

datatype outcome = Exited nat | Uncaught exn

fun exit_status :: "outcome \<Rightarrow> nat" where
  "exit_status (Exited n) = n"
| "exit_status (Uncaught e) = 1"

definition main :: "world \<Rightarrow> outcome \<times> world \<times> event list" where
  "main w =
     (case main_body w of
        (Inr code, w', es) \<Rightarrow> (Exited code, w', es)
      | (Inl e, w', es) \<Rightarrow> (Uncaught e, w', es))"

subsection \<open>What the statements below are phrased with\<close>

text \<open>Every event a computation can produce satisfies \<open>P\<close>.\<close>

definition emits_only :: "(event \<Rightarrow> bool) \<Rightarrow> 'a io \<Rightarrow> bool" where
  "emits_only P m = (\<forall>w r w' es. m w = (r, w', es) \<longrightarrow> (\<forall>e \<in> set es. P e))"


text \<open>The resolver's rule in the words of the specification: a discovered package is an
  edge target when its declared name is a key of the dependencies or of the peer
  dependencies of the manifest.\<close>

definition declared_in_union :: "manifest \<Rightarrow> world \<Rightarrow> string \<Rightarrow> bool" where
  "declared_in_union pkgJson w pkg =
     (case manifest w pkg of
        None \<Rightarrow> False
      | Some m \<Rightarrow>
          (case name m of
             None \<Rightarrow> False
           | Some n \<Rightarrow> n \<in> dom (dependencies pkgJson) \<union> dom (peerDependencies pkgJson)))"

text \<open>The part of the world that no operation of the script writes to, as far as the
  statements below need it.\<close>

definition static :: "world \<Rightarrow> string list \<times> (string \<Rightarrow> (string \<times> string) list option)
    \<times> (string \<Rightarrow> manifest option) \<times> (string \<Rightarrow> bool)" where
  "static w = (packages_dir w, dist w, manifest w, npm_install w)"

text \<open>A computation leaves that part as it found it.\<close>

definition keeps_static :: "'a io \<Rightarrow> bool" where
  "keeps_static m = (\<forall>w r w' es. m w = (r, w', es) \<longrightarrow> static w' = static w)"

text \<open>The events of the install phase: installs and the module load.\<close>

fun phase_event :: "event \<Rightarrow> bool" where
  "phase_event (Npm_install_dep t d) = True"
| "phase_event (Npm_install_target t) = True"
| "phase_event (Node_import t nm) = True"
| "phase_event _ = False"

text \<open>What the install phase can produce for the dependencies \<open>deps\<close> in directory
  \<open>t\<close>: installs of a first part of \<open>deps\<close>, or the installs of all of them, the
  install of the target and then possibly, if that install succeeded (\<open>ok\<close>), the load.
  \<open>staged\<close> says that a computation produces events outside the install phase followed
  by events of that shape.\<close>

definition install_shape :: "string list \<Rightarrow> nat \<Rightarrow> bool \<Rightarrow> event list \<Rightarrow> bool" where
  "install_shape deps t ok M =
     ((\<exists>k. M = map (Npm_install_dep t) (take k deps))
      \<or> (\<exists>post. M = map (Npm_install_dep t) deps @ Npm_install_target t # post
            \<and> (post = [] \<or> (ok \<and> (\<exists>nm. post = [Node_import t nm])))))"

definition staged :: "string list \<Rightarrow> nat \<Rightarrow> 'a io \<Rightarrow> bool" where
  "staged deps t m =
     (\<forall>w r w' es. m w = (r, w', es) \<longrightarrow>
        (\<exists>A M. es = A @ M \<and> (\<forall>e \<in> set A. \<not> phase_event e)
           \<and> install_shape deps t (npm_install w ''package.tgz'') M))"

text \<open>The sourcemap rule, file by file: a compiled file passes when it has no companion
  map, or when the map parses with a non-empty \<open>sources\<close> and the file refers to a
  sourcemap. \<open>spec_complaint\<close> is the line printed for a file that does not pass.\<close>

definition file_text :: "world \<Rightarrow> string \<Rightarrow> string \<Rightarrow> string option" where
  "file_text w pkg file = (case dist w pkg of None \<Rightarrow> None | Some entries \<Rightarrow> map_of entries file)"

definition map_has_sources :: "world \<Rightarrow> string \<Rightarrow> bool" where
  "map_has_sources w text =
     (case json_parse w text of
        None \<Rightarrow> False
      | Some j \<Rightarrow> (case sources_of j of Inl e \<Rightarrow> False | Inr v \<Rightarrow> truthy (length_of v)))"

definition spec_file_ok :: "world \<Rightarrow> string \<Rightarrow> string \<Rightarrow> bool" where
  "spec_file_ok w pkg jsFile =
     (case file_text w pkg (jsFile @ ''.map'') of
        None \<Rightarrow> True
      | Some text \<Rightarrow>
          map_has_sources w text
          \<and> (case file_text w pkg jsFile of
                None \<Rightarrow> False
              | Some js \<Rightarrow> js_includes js ''sourceMappingURL=''))"

definition spec_complaint :: "world \<Rightarrow> string \<Rightarrow> string \<Rightarrow> msg" where
  "spec_complaint w pkg jsFile =
     (let mapFile = jsFile @ ''.map'' in
      case readFile_dist pkg mapFile w of
        Inl e \<Rightarrow> Map_invalid mapFile (message e)
      | Inr text \<Rightarrow>
          (case JSON_parse text w of
             Inl e \<Rightarrow> Map_invalid mapFile (message e)
           | Inr j \<Rightarrow>
               (case sources_of j of
                  Inl e \<Rightarrow> Map_invalid mapFile (message e)
                | Inr v \<Rightarrow>
                    if \<not> truthy (length_of v) then Map_no_sources mapFile
                    else Missing_reference jsFile)))"

subsection \<open>A small workspace to run the model on\<close>

text \<open>Three directories under \<open>packages/\<close>: \<open>core\<close> and \<open>app\<close> are built, \<open>docs\<close>
  is private and has no build output; \<open>app\<close> depends on \<open>core\<close> and on one package
  from the registry.\<close>

definition ok_result :: spawn_result where
  "ok_result = \<lparr>status = Some 0, stdout = [], stderr = []\<rparr>"

definition failed_result :: spawn_result where
  "failed_result = \<lparr>status = Some 1, stdout = [], stderr = []\<rparr>"

definition core_manifest :: manifest where
  "core_manifest = \<lparr>name = Some ''@o/core'', dependencies = Map.empty,
      peerDependencies = Map.empty, is_private = False\<rparr>"

definition app_manifest :: manifest where
  "app_manifest = \<lparr>name = Some ''@o/app'',
      dependencies = [''@o/core'' \<mapsto> ''1.0.0'', ''left-pad'' \<mapsto> ''1.3.0''],
      peerDependencies = Map.empty, is_private = False\<rparr>"

definition docs_manifest :: manifest where
  "docs_manifest = \<lparr>name = Some ''@o/docs'', dependencies = Map.empty,
      peerDependencies = Map.empty, is_private = True\<rparr>"

definition demo_world :: world where
  "demo_world =
     \<lparr>packages_dir = [''core'', ''app'', ''docs''],
      dist = [''core'' \<mapsto> [(''index.js'', ''export const a = 1; //# sourceMappingURL=index.js.map''),
                              (''index.js.map'', ''MAP'')],
              ''app'' \<mapsto> [(''index.js'', ''export const b = 2;'')]],
      manifest = [''core'' \<mapsto> core_manifest, ''app'' \<mapsto> app_manifest, ''docs'' \<mapsto> docs_manifest],
      pkg_entries = (\<lambda>p. [''package.json'', ''dist'']),
      sandboxes = Map.empty,
      next_tmp = 0,
      json_parse = [''MAP'' \<mapsto> JObj [(''sources'', JArr [JStr ''a.ts''])]],
      es_check = (\<lambda>p. ok_result),
      eslint_dist = ok_result,
      publint = (\<lambda>p. ok_result),
      grep_require = (\<lambda>p. failed_result),
      npm_pack = [''core'' \<mapsto> [''o-core-1.0.0.tgz''], ''app'' \<mapsto> [''o-app-1.0.0.tgz'']],
      npm_install = (\<lambda>a. True),
      node_load = (\<lambda>n. Some [''a'']),
      gzip_length = length\<rparr>"


text \<open>The same workspace where every module loads with an empty namespace.\<close>

definition silent_world :: world where
  "silent_world = demo_world\<lparr>node_load := (\<lambda>n. Some [])\<rparr>"

text \<open>Only the private package is built, and the package-metadata linter fails.\<close>

definition warned_world :: world where
  "warned_world =
     demo_world\<lparr>packages_dir := [''docs''], dist := [''docs'' \<mapsto> []],
       publint := (\<lambda>p. failed_result)\<rparr>"

text \<open>The syntax checker rejects every package.\<close>

definition rejected_world :: world where
  "rejected_world = demo_world\<lparr>es_check := (\<lambda>p. failed_result)\<rparr>"

text \<open>The archive of the dependency \<open>core\<close> does not appear when it is packed.\<close>

definition unpacked_world :: world where
  "unpacked_world =
     demo_world\<lparr>npm_pack := [''core'' \<mapsto> [], ''app'' \<mapsto> [''o-app-1.0.0.tgz'']]\<rparr>"

text \<open>The same, in a workspace where the directory of the dependency is called
  \<open>package\<close>.\<close>

definition dep_manifest :: manifest where
  "dep_manifest = \<lparr>name = Some ''@o/dep'', dependencies = Map.empty,
      peerDependencies = Map.empty, is_private = False\<rparr>"

definition user_manifest :: manifest where
  "user_manifest = \<lparr>name = Some ''@o/app'', dependencies = [''@o/dep'' \<mapsto> ''1.0.0''],
      peerDependencies = Map.empty, is_private = False\<rparr>"

definition collide_world :: world where
  "collide_world =
     demo_world\<lparr>packages_dir := [''package'', ''app''],
       dist := [''package'' \<mapsto> [], ''app'' \<mapsto> []],
       manifest := [''package'' \<mapsto> dep_manifest, ''app'' \<mapsto> user_manifest],
       npm_pack := [''package'' \<mapsto> [], ''app'' \<mapsto> [''o-app-1.0.0.tgz'']]\<rparr>"


lemmas demo_defs = demo_world_def app_manifest_def core_manifest_def docs_manifest_def
  ok_result_def failed_result_def

section \<open>Properties\<close>

subsection \<open>Auxiliary facts\<close>

lemmas io_defs = bind_def seq_def return_def throw_def gets_def lift_def emit_def log_msg_def
  logSection_def try_catch_def finally_do_def

lemmas run_defs = testPackageImports_def import_test_body_def install_and_verify_def
  pack_dependency_def
  install_dependency_def getPackageJson_def mkdtempSync_def rmSync_def
  getWorkspaceDependencies_def getPackagesWithDist_def ebind_def keys_include_def allDeps_def
  exec_npm_pack_def declared_name_def find_tarball_def safe_name_def startsWith_def
  endsWith_def renameSync_def writeFileSync_def add_entry_def exec_npm_install_def
  exec_node_import_def import_script_def Let_def suffix_to_prefix

lemma ebind_Inr: "ebind (Inr x) k = k x"
  by (simp add: ebind_def)

lemma map_exn_ok:
  "(\<And>x. x \<in> set xs \<Longrightarrow> f x = Inr (g x)) \<Longrightarrow> map_exn f xs = Inr (map g xs)"
  by (induction xs) (simp_all add: ebind_def)

lemma filter_exn_ok:
  "(\<And>x. x \<in> set xs \<Longrightarrow> p x = Inr (q x)) \<Longrightarrow> filter_exn p xs = Inr (filter q xs)"
  by (induction xs) (simp_all add: ebind_def)

lemma emits_onlyD: "emits_only P m \<Longrightarrow> m w = (r, w', es) \<Longrightarrow> e \<in> set es \<Longrightarrow> P e"
  unfolding emits_only_def by blast

lemma emits_only_return [intro!, simp]: "emits_only P (return x)"
  by (simp add: emits_only_def return_def)

lemma emits_only_throw [intro!, simp]: "emits_only P (throw e)"
  by (simp add: emits_only_def throw_def)

lemma emits_only_gets [intro!, simp]: "emits_only P (gets f)"
  by (simp add: emits_only_def gets_def)

lemma emits_only_lift [intro!, simp]: "emits_only P (lift f)"
  by (simp add: emits_only_def lift_def)

lemma emits_only_emit [simp]: "emits_only P (emit ev) = P ev"
  by (auto simp add: emits_only_def emit_def)

lemma emits_only_bind [intro!]:
  assumes "emits_only P m" and "\<And>x. emits_only P (k x)"
  shows "emits_only P (bind m k)"
  unfolding emits_only_def
proof (intro allI impI ballI)
  fix w r w' es e
  assume run: "bind m k w = (r, w', es)" and e: "e \<in> set es"
  obtain r1 w1 es1 where m: "m w = (r1, w1, es1)" by (cases "m w") auto
  show "P e"
  proof (cases r1)
    case (Inl x)
    with run m have "es = es1" by (simp add: bind_def)
    with e m assms(1) show ?thesis by (auto dest: emits_onlyD)
  next
    case (Inr x)
    obtain r2 w2 es2 where k: "k x w1 = (r2, w2, es2)" by (cases "k x w1") auto
    with run m Inr have "es = es1 @ es2" by (simp add: bind_def)
    with e m k assms show ?thesis by (auto dest: emits_onlyD)
  qed
qed

lemma emits_only_seq [intro!]:
  "emits_only P m \<Longrightarrow> emits_only P k \<Longrightarrow> emits_only P (seq m k)"
  by (simp add: seq_def emits_only_bind)

lemma emits_only_try_catch [intro!]:
  assumes "emits_only P m" and "\<And>x. emits_only P (h x)"
  shows "emits_only P (try_catch m h)"
  unfolding emits_only_def
proof (intro allI impI ballI)
  fix w r w' es e
  assume run: "try_catch m h w = (r, w', es)" and e: "e \<in> set es"
  obtain r1 w1 es1 where m: "m w = (r1, w1, es1)" by (cases "m w") auto
  show "P e"
  proof (cases r1)
    case (Inr x)
    with run m have "es = es1" by (simp add: try_catch_def)
    with e m assms(1) show ?thesis by (auto dest: emits_onlyD)
  next
    case (Inl x)
    obtain r2 w2 es2 where k: "h x w1 = (r2, w2, es2)" by (cases "h x w1") auto
    with run m Inl have "es = es1 @ es2" by (simp add: try_catch_def)
    with e m k assms show ?thesis by (auto dest: emits_onlyD)
  qed
qed

lemma emits_only_for_each [intro!]:
  "(\<And>x. emits_only P (f x)) \<Longrightarrow> emits_only P (for_each xs f)"
  by (induction xs) auto

lemma emits_only_fold_io [intro!]:
  "(\<And>x s. emits_only P (f x s)) \<Longrightarrow> emits_only P (fold_io f xs s)"
  by (induction xs arbitrary: s) auto

lemma emits_only_for_return [intro!]:
  "(\<And>x. emits_only P (f x)) \<Longrightarrow> emits_only P (for_return xs f)"
  by (induction xs) (auto split: option.splits)

lemma emits_only_if [intro!]:
  "(c \<Longrightarrow> emits_only P a) \<Longrightarrow> (\<not> c \<Longrightarrow> emits_only P b) \<Longrightarrow> emits_only P (if c then a else b)"
  by simp

lemma emits_only_case_option [intro!]:
  "(x = None \<Longrightarrow> emits_only P a) \<Longrightarrow> (\<And>y. x = Some y \<Longrightarrow> emits_only P (b y))
    \<Longrightarrow> emits_only P (case x of None \<Rightarrow> a | Some y \<Rightarrow> b y)"
  by (cases x) simp_all

lemma emits_only_exec_npm_pack [simp]: "emits_only P (exec_npm_pack pkg) = P (Npm_pack pkg)"
  by (auto simp: emits_only_def exec_npm_pack_def split: option.splits)

lemma emits_only_renameSync [simp]:
  "emits_only P (renameSync pkg f n d) = P (Rename pkg f n d)"
  by (auto simp: emits_only_def renameSync_def split: option.splits)

lemma emits_only_writeFileSync [simp]:
  "emits_only P (writeFileSync n f) = P (Write_file n f)"
  by (auto simp: emits_only_def writeFileSync_def split: option.splits)

lemma emits_only_exec_npm_install [simp]:
  "emits_only P (exec_npm_install ev n a) = P ev"
  by (auto simp: emits_only_def exec_npm_install_def split: option.splits)

lemma emits_only_exec_node_import [simp]:
  "emits_only P (exec_node_import n nm) = P (Node_import n nm)"
  by (auto simp: emits_only_def exec_node_import_def)

lemma emits_only_declared_name [intro!, simp]: "emits_only P (declared_name j)"
  by (simp add: declared_name_def split: option.splits)

lemma emits_only_log_msg [simp]: "emits_only P (log_msg m) = P (Log m)"
  by (simp add: log_msg_def)

lemma emits_only_logSection [simp]: "emits_only P (logSection t) = P (Section t)"
  by (simp add: logSection_def)


lemma declared_in_union_iff:
  "declared_in_union pkgJson w pkg \<longleftrightarrow>
     (\<exists>m n. manifest w pkg = Some m \<and> name m = Some n
        \<and> n \<in> dom (dependencies pkgJson) \<union> dom (peerDependencies pkgJson))"
proof (cases "manifest w pkg")
  case None
  then show ?thesis by (simp add: declared_in_union_def)
next
  case (Some m)
  then show ?thesis by (cases "name m") (simp_all add: declared_in_union_def)
qed

subsection \<open>Teardown of the temporary directory\<close>

text \<open>
  C1. An import test of a package that is not private makes one temporary directory and
  removes it exactly once, as the last thing it does, whatever happened in between: the
  test always returns a boolean, its events begin with the creation of the directory, end
  with its removal, and contain no other removal; the directory is gone afterwards.
\<close>

theorem sandbox_removed_exactly_once:
  assumes "manifest w pkgName = Some pkgJson" and "\<not> is_private pkgJson"
  shows "\<exists>b w' es.
           testPackageImports pkgName w = (Inr b, w', Mkdtemp (next_tmp w) # es @ [Rm (next_tmp w)])
           \<and> (\<forall>k. Rm k \<notin> set es)
           \<and> sandboxes w' (next_tmp w) = None"
proof -
  let ?n = "next_tmp w"
  let ?w0 = "w\<lparr>sandboxes := (sandboxes w)(?n \<mapsto> []), next_tmp := Suc ?n\<rparr>"
  let ?guarded = "try_catch (import_test_body pkgName pkgJson ?n)
                    (\<lambda>error. seq (log_msg (Import_failed (message error))) (return False))"
  obtain r w1 es where run: "?guarded ?w0 = (r, w1, es)"
    by (cases "?guarded ?w0") auto
  have "emits_only (\<lambda>e. \<forall>k. e \<noteq> Rm k) ?guarded"
    unfolding import_test_body_def install_and_verify_def pack_dependency_def
      install_dependency_def
    by (intro emits_only_bind emits_only_seq emits_only_for_each emits_only_case_option
        emits_only_lift emits_only_gets emits_only_return emits_only_throw
        emits_only_declared_name emits_only_try_catch)
       simp_all
  with run have no_rm: "\<forall>k. Rm k \<notin> set es"
    by (auto dest: emits_onlyD)
  obtain b where b: "r = Inr b"
    using run
    by (cases "import_test_body pkgName pkgJson ?n ?w0")
       (auto simp: try_catch_def seq_def bind_def log_msg_def emit_def return_def
             split: sum.splits)
  have "testPackageImports pkgName w =
          (Inr b, w1\<lparr>sandboxes := (sandboxes w1)(?n := None)\<rparr>, Mkdtemp ?n # es @ [Rm ?n])"
    using assms run b
    by (simp add: testPackageImports_def bind_def lift_def getPackageJson_def mkdtempSync_def
          Let_def finally_do_def rmSync_def)
  with no_rm show ?thesis by simp
qed


theorem sandbox_removed_exactly_once_witness:
  "\<exists>b w' es.
     testPackageImports ''core'' demo_world = (Inr b, w', Mkdtemp 0 # es @ [Rm 0])
     \<and> (\<forall>k. Rm k \<notin> set es) \<and> sandboxes w' 0 = None"
proof -
  have m: "manifest demo_world ''core'' = Some core_manifest"
    by (simp add: demo_defs)
  have p: "\<not> is_private core_manifest"
    by (simp add: demo_defs)
  have n: "next_tmp demo_world = 0"
    by (simp add: demo_defs)
  show ?thesis
    using sandbox_removed_exactly_once [OF m p] unfolding n .
qed

subsection \<open>Private packages\<close>

text \<open>
  C5. For a package whose manifest says private, the import test returns true, prints
  that it skipped the package and does nothing else: the world is unchanged (no
  temporary directory, no archive) and no command is started.
\<close>

theorem private_package_skipped:
  assumes "manifest w pkgName = Some pkgJson" and "is_private pkgJson"
  shows "testPackageImports pkgName w = (Inr True, w, [Log Skipped_private])"
  using assms
  by (simp add: testPackageImports_def bind_def lift_def getPackageJson_def seq_def
        log_msg_def emit_def return_def)


theorem private_package_skipped_witness:
  "testPackageImports ''docs'' demo_world = (Inr True, demo_world, [Log Skipped_private])"
proof -
  have m: "manifest demo_world ''docs'' = Some docs_manifest"
    by (simp add: demo_defs)
  have p: "is_private docs_manifest"
    by (simp add: demo_defs)
  show ?thesis
    using private_package_skipped [OF m p] .
qed

subsection \<open>Workspace dependencies\<close>

text \<open>
  C6. When the manifest of every discovered package can be read, the resolver returns
  exactly the discovered packages (those with build output) whose declared name is a key
  of the dependencies or peer dependencies of the given manifest, in discovery order. A
  name that no discovered package declares, and a package without build output, are
  therefore never in the result.
\<close>

theorem getWorkspaceDependencies_exact:
  assumes "\<forall>pkg \<in> set (getPackagesWithDist w). manifest w pkg \<noteq> None"
  shows "\<exists>deps.
           getWorkspaceDependencies pkgJson w = Inr deps
           \<and> deps = filter (declared_in_union pkgJson w) (getPackagesWithDist w)
           \<and> set deps =
               {pkg \<in> set (packages_dir w).
                  dist w pkg \<noteq> None
                  \<and> (\<exists>m n. manifest w pkg = Some m \<and> name m = Some n
                       \<and> n \<in> dom (dependencies pkgJson) \<union> dom (peerDependencies pkgJson))}"
proof -
  let ?ps = "getPackagesWithDist w"
  have names: "map_exn (\<lambda>pkg. ebind (getPackageJson pkg w) (\<lambda>j. Inr (name j))) ?ps
      = Inr (map (\<lambda>pkg. name (the (manifest w pkg))) ?ps)"
    using assms by (intro map_exn_ok) (auto simp: getPackageJson_def ebind_def)
  have keep: "filter_exn
             (\<lambda>pkg. ebind (getPackageJson pkg w)
                (\<lambda>j. Inr (name j \<in> set (map (\<lambda>pkg. name (the (manifest w pkg))) ?ps)
                    \<and> keys_include (allDeps pkgJson) (name j)))) ?ps
       = Inr (filter (declared_in_union pkgJson w) ?ps)"
  proof (intro filter_exn_ok)
    fix x assume x: "x \<in> set ?ps"
    with assms obtain m where m: "manifest w x = Some m" by auto
    from x m have "name m \<in> set (map (\<lambda>pkg. name (the (manifest w pkg))) ?ps)"
      by force
    with m show "ebind (getPackageJson x w)
          (\<lambda>j. Inr (name j \<in> set (map (\<lambda>pkg. name (the (manifest w pkg))) ?ps)
                    \<and> keys_include (allDeps pkgJson) (name j))) = Inr (declared_in_union pkgJson w x)"
      by (auto simp: getPackageJson_def ebind_def declared_in_union_def keys_include_def
               allDeps_def split: option.splits)
  qed
  have "getWorkspaceDependencies pkgJson w =
      ebind (map_exn (\<lambda>pkg. ebind (getPackageJson pkg w) (\<lambda>j. Inr (name j))) ?ps)
        (\<lambda>workspaceNames.
           filter_exn
             (\<lambda>pkg. ebind (getPackageJson pkg w)
                (\<lambda>j. Inr (name j \<in> set workspaceNames \<and> keys_include (allDeps pkgJson) (name j))))
             ?ps)"
    by (simp only: getWorkspaceDependencies_def Let_def)
  also have "\<dots> = Inr (filter (declared_in_union pkgJson w) ?ps)"
    by (simp only: names ebind_Inr keep)
  finally have run: "getWorkspaceDependencies pkgJson w =
      Inr (filter (declared_in_union pkgJson w) ?ps)" .
  have "set (filter (declared_in_union pkgJson w) ?ps) =
      {pkg \<in> set (packages_dir w).
         dist w pkg \<noteq> None
         \<and> (\<exists>m n. manifest w pkg = Some m \<and> name m = Some n
              \<and> n \<in> dom (dependencies pkgJson) \<union> dom (peerDependencies pkgJson))}"
    by (auto simp: getPackagesWithDist_def declared_in_union_iff)
  with run show ?thesis by simp
qed

theorem getWorkspaceDependencies_exact_witness:
  "getWorkspaceDependencies app_manifest demo_world = Inr [''core'']"
proof -
  have h: "\<forall>pkg \<in> set (getPackagesWithDist demo_world). manifest demo_world pkg \<noteq> None"
    by (simp add: getPackagesWithDist_def demo_defs)
  have "filter (declared_in_union app_manifest demo_world) (getPackagesWithDist demo_world)
          = [''core'']"
    by (simp add: getPackagesWithDist_def declared_in_union_def demo_defs)
  with getWorkspaceDependencies_exact [OF h, of app_manifest] show ?thesis
    by simp
qed

subsection \<open>No built package at all\<close>

text \<open>
  C10. When no package with build output is found, the syntax stage on its own prints a
  warning and returns true, while the orchestrator prints its error and exits with
  status 1 before it starts any stage: the status comes from the guard at the top of
  \<open>main\<close> alone.
\<close>

theorem no_packages_guard:
  assumes "getPackagesWithDist w = []"
  shows "checkSyntaxCompliance w =
           (Inr True, w, [Section ''1. Syntax Compliance (es-check)'', Log No_dist_warning])
         \<and> main w = (Exited 1, w, [Section ''OpenTelemetry Browser Validation'', Log No_dist_fatal])"
  using assms
  by (simp add: checkSyntaxCompliance_def main_def main_body_def seq_def bind_def logSection_def
        log_msg_def emit_def return_def gets_def)


theorem no_packages_guard_witness:
  "checkSyntaxCompliance (demo_world\<lparr>packages_dir := []\<rparr>) =
     (Inr True, demo_world\<lparr>packages_dir := []\<rparr>,
      [Section ''1. Syntax Compliance (es-check)'', Log No_dist_warning])
   \<and> main (demo_world\<lparr>packages_dir := []\<rparr>) =
     (Exited 1, demo_world\<lparr>packages_dir := []\<rparr>,
      [Section ''OpenTelemetry Browser Validation'', Log No_dist_fatal])"
proof -
  have h: "getPackagesWithDist (demo_world\<lparr>packages_dir := []\<rparr>) = []"
    by (simp add: getPackagesWithDist_def)
  show ?thesis
    using no_packages_guard [OF h] .
qed

subsection \<open>The module-load verification\<close>

text \<open>
  C2 (as amended). The verification script exits with status 0 exactly when the module
  loads, and the step of the import test succeeds exactly then. What the module exports
  plays no part: the namespace object the script tests is truthy even when it is empty.
\<close>

theorem verification_passes_iff_module_loads:
  "(import_script loaded = 0 \<longleftrightarrow> loaded \<noteq> None)
   \<and> (fst (exec_node_import n nm w) = Inr () \<longleftrightarrow> node_load w nm \<noteq> None)"
  by (cases loaded; cases "node_load w nm") (simp_all add: import_script_def exec_node_import_def)

theorem verification_passes_iff_module_loads_witness:
  "import_script (Some []) = 0 \<and> fst (exec_node_import 0 ''@o/core'' silent_world) = Inr ()"
  using verification_passes_iff_module_loads [of "Some []" 0 "''@o/core''" silent_world]
  by (simp add: silent_world_def)

text \<open>
  C2 as stated fails: in a workspace where the module of \<open>core\<close> loads with an empty
  namespace, the script exits with 0 and the import test of \<open>core\<close> returns true.
\<close>

theorem empty_namespace_passes:
  "node_load silent_world ''@o/core'' = Some []
   \<and> import_script (node_load silent_world ''@o/core'') = 0
   \<and> fst (testPackageImports ''core'' silent_world) = Inr True"
  by (simp add: silent_world_def demo_defs run_defs io_defs)

subsection \<open>External checkers\<close>

lemma check_syntax_run:
  "check_syntax pkg fs w =
     (Inr (if status (es_check w pkg) \<noteq> Some 0 then fs @ [pkg] else fs), w,
      [Es_check pkg, Log (if status (es_check w pkg) \<noteq> Some 0 then Syntax_fail pkg else Syntax_ok pkg)])"
  by (simp add: check_syntax_def spawn_def io_defs)

lemma bind_run:
  "m w = (Inr x, w1, es1) \<Longrightarrow> k x w1 = (r, w2, es2) \<Longrightarrow> bind m k w = (r, w2, es1 @ es2)"
  by (simp add: bind_def)

lemma bind_fail: "m w = (Inl e, w1, es1) \<Longrightarrow> bind m k w = (Inl e, w1, es1)"
  by (simp add: bind_def)

lemma fold_check_syntax:
  "\<exists>es. fold_io check_syntax xs fs w =
     (Inr (fs @ filter (\<lambda>p. status (es_check w p) \<noteq> Some 0) xs), w, es)"
proof (induction xs arbitrary: fs)
  case Nil
  then show ?case by (simp add: return_def)
next
  case (Cons x xs)
  let ?fs = "if status (es_check w x) \<noteq> Some 0 then fs @ [x] else fs"
  obtain es where rest: "fold_io check_syntax xs ?fs w =
     (Inr (?fs @ filter (\<lambda>p. status (es_check w p) \<noteq> Some 0) xs), w, es)"
    using Cons.IH by blast
  have step: "check_syntax x fs w =
     (Inr ?fs, w,
      [Es_check x, Log (if status (es_check w x) \<noteq> Some 0 then Syntax_fail x else Syntax_ok x)])"
    by (rule check_syntax_run)
  show ?case
    using step rest by (cases "status (es_check w x) = Some 0") (simp_all add: bind_def)
qed

lemma checkSyntaxCompliance_result:
  "fst (checkSyntaxCompliance w) =
     Inr (\<forall>pkg \<in> set (getPackagesWithDist w). status (es_check w pkg) = Some 0)"
proof -
  obtain es where run: "fold_io check_syntax (getPackagesWithDist w) [] w =
     (Inr ([] @ filter (\<lambda>p. status (es_check w p) \<noteq> Some 0) (getPackagesWithDist w)), w, es)"
    using fold_check_syntax by blast
  show ?thesis
    using run
    by (auto simp: checkSyntaxCompliance_def io_defs filter_empty_conv)
qed

lemma checkBaselineAPIs_result:
  "fst (checkBaselineAPIs w) = Inr (status (eslint_dist w) = Some 0)"
  by (simp add: checkBaselineAPIs_def io_defs spawn_def)

lemma run_publint_run: "\<exists>es. run_publint pkg w = (Inr (), w, es)"
  by (cases "exn_stdout (Command_failed ''npx publint'' (stdout (publint w pkg)))")
     (simp_all add: run_publint_def exec_sync_def io_defs)

lemma for_each_run_publint: "\<exists>es. for_each xs run_publint w = (Inr (), w, es)"
proof (induction xs)
  case Nil
  then show ?case by (simp add: return_def)
next
  case (Cons x xs)
  obtain es1 where a: "run_publint x w = (Inr (), w, es1)"
    using run_publint_run by blast
  obtain es2 where b: "for_each xs run_publint w = (Inr (), w, es2)"
    using Cons.IH by blast
  show ?case by (simp add: bind_def a b)
qed

lemma run_publint_events:
  "run_publint pkg w =
     (Inr (), w,
      if status (publint w pkg) = Some 0 then [Publint pkg, Log (Publint_ok pkg)]
      else [Publint pkg, Log (Publint_warnings pkg),
            Log (Diagnostic (trim (stdout (publint w pkg))))])"
  by (simp add: run_publint_def exec_sync_def io_defs)


lemma checkPackageExports_run:
  assumes "fold_io check_package (getPackagesWithDist w) True w = (Inr b, w1, es1)"
  shows "\<exists>es2. for_each (getPackagesWithDist w) run_publint w1 = (Inr (), w1, es2)
           \<and> checkPackageExports w =
               (Inr b, w1,
                Section ''3. Package Exports & Integrity'' # es1 @ Log Running_publint # es2
                @ (if b then [Log Exports_valid] else []))"
proof -
  obtain es2 where p: "for_each (getPackagesWithDist w) run_publint w1 = (Inr (), w1, es2)"
    using for_each_run_publint by blast
  have "checkPackageExports w =
               (Inr b, w1,
                Section ''3. Package Exports & Integrity'' # es1 @ Log Running_publint # es2
                @ (if b then [Log Exports_valid] else []))"
    using assms p by (cases b) (simp_all add: checkPackageExports_def io_defs)
  with p show ?thesis by blast
qed


text \<open>
  C7 (as amended). The syntax stage succeeds exactly when the syntax checker exits with 0
  on every discovered package, and the baseline stage exactly when the linter exits with
  0. The package-metadata linter is different. Its loop body starts the linter and never
  throws: on status 0 it prints the package as passed, on any other status it prints the
  warning line and the captured output. The export stage runs that body for every
  discovered package after its first loop, and returns the value the first loop
  (sourcemaps and imports) has computed, whatever the linter's exit status is.
\<close>

theorem checker_exit_status:
  "fst (checkSyntaxCompliance w) =
     Inr (\<forall>pkg \<in> set (getPackagesWithDist w). status (es_check w pkg) = Some 0)
   \<and> fst (checkBaselineAPIs w) = Inr (status (eslint_dist w) = Some 0)
   \<and> (\<forall>pkg. status (publint w pkg) = Some 0 \<longrightarrow>
         run_publint pkg w = (Inr (), w, [Publint pkg, Log (Publint_ok pkg)]))
   \<and> (\<forall>pkg. status (publint w pkg) \<noteq> Some 0 \<longrightarrow>
         run_publint pkg w =
           (Inr (), w,
            [Publint pkg, Log (Publint_warnings pkg),
             Log (Diagnostic (trim (stdout (publint w pkg))))]))
   \<and> (\<forall>b w1 es1.
         fold_io check_package (getPackagesWithDist w) True w = (Inr b, w1, es1)
         \<longrightarrow> (\<exists>es2.
                for_each (getPackagesWithDist w) run_publint w1 = (Inr (), w1, es2)
                \<and> checkPackageExports w =
                    (Inr b, w1,
                     Section ''3. Package Exports & Integrity'' # es1
                     @ Log Running_publint # es2
                     @ (if b then [Log Exports_valid] else []))))"
proof (intro conjI allI impI)
  show "fst (checkSyntaxCompliance w) =
     Inr (\<forall>pkg \<in> set (getPackagesWithDist w). status (es_check w pkg) = Some 0)"
    by (rule checkSyntaxCompliance_result)
  show "fst (checkBaselineAPIs w) = Inr (status (eslint_dist w) = Some 0)"
    by (rule checkBaselineAPIs_result)
next
  fix pkg
  assume "status (publint w pkg) = Some 0"
  then show "run_publint pkg w = (Inr (), w, [Publint pkg, Log (Publint_ok pkg)])"
    by (simp add: run_publint_events)
next
  fix pkg
  assume "status (publint w pkg) \<noteq> Some 0"
  then show "run_publint pkg w =
           (Inr (), w,
            [Publint pkg, Log (Publint_warnings pkg),
             Log (Diagnostic (trim (stdout (publint w pkg))))])"
    by (simp add: run_publint_events)
next
  fix b w1 es1
  assume "fold_io check_package (getPackagesWithDist w) True w = (Inr b, w1, es1)"
  then show "\<exists>es2.
                for_each (getPackagesWithDist w) run_publint w1 = (Inr (), w1, es2)
                \<and> checkPackageExports w =
                    (Inr b, w1,
                     Section ''3. Package Exports & Integrity'' # es1
                     @ Log Running_publint # es2
                     @ (if b then [Log Exports_valid] else []))"
    by (rule checkPackageExports_run)
qed

theorem checker_exit_status_witness:
  "fst (checkSyntaxCompliance rejected_world) = Inr False
   \<and> fst (checkBaselineAPIs rejected_world) = Inr True
   \<and> run_publint ''docs'' warned_world =
       (Inr (), warned_world,
        [Publint ''docs'', Log (Publint_warnings ''docs''), Log (Diagnostic [])])"
proof -
  have a: "(\<forall>pkg \<in> set (getPackagesWithDist rejected_world).
              status (es_check rejected_world pkg) = Some 0) = False"
    by (auto simp: rejected_world_def demo_defs getPackagesWithDist_def)
  have b: "(status (eslint_dist rejected_world) = Some 0) = True"
    by (simp add: rejected_world_def demo_defs)
  have c: "status (publint warned_world ''docs'') \<noteq> Some 0"
    by (simp add: warned_world_def demo_defs)
  have d: "trim (stdout (publint warned_world ''docs'')) = []"
    by (simp add: warned_world_def demo_defs trim_def)
  from checker_exit_status [of rejected_world]
  have "fst (checkSyntaxCompliance rejected_world) = Inr False
      \<and> fst (checkBaselineAPIs rejected_world) = Inr True"
    unfolding a b by blast
  moreover from checker_exit_status [of warned_world] c
  have "run_publint ''docs'' warned_world =
       (Inr (), warned_world,
        [Publint ''docs'', Log (Publint_warnings ''docs''),
         Log (Diagnostic (trim (stdout (publint warned_world ''docs''))))])"
    by blast
  ultimately show ?thesis unfolding d by simp
qed

text \<open>
  C7 as stated fails for the package-metadata linter: it exits with status 1 on the only
  built package, a warning is printed, and the export stage returns true.
\<close>

theorem publint_failure_is_a_warning:
  "status (publint warned_world ''docs'') = Some 1
   \<and> checkPackageExports warned_world =
       (Inr True, warned_world,
        [Section ''3. Package Exports & Integrity'', Log (Package_header ''docs''),
         Log Sourcemaps_valid, Log Skipped_private, Log Imports_work, Log Running_publint,
         Publint ''docs'', Log (Publint_warnings ''docs''), Log (Diagnostic []),
         Log Exports_valid])"
  by (simp add: warned_world_def demo_defs checkPackageExports_def check_package_def
        validateSourcemaps_def readdir_dist_def run_publint_def exec_sync_def trim_def
        run_defs io_defs)

subsection \<open>Sourcemaps\<close>

lemma exists_dist_iff: "exists_dist pkg f w \<longleftrightarrow> file_text w pkg f \<noteq> None"
  by (cases "dist w pkg") (simp_all add: exists_dist_def file_text_def map_of_eq_None_iff)

lemma check_map_run:
  assumes "file_text w pkg (jsFile @ ''.map'') = Some text"
  shows "check_map pkg (jsFile @ ''.map'') w =
     (if map_has_sources w text then (Inr None, w, [])
      else (Inr (Some False), w, [Log (spec_complaint w pkg jsFile)]))"
proof (cases "dist w pkg")
  case None
  with assms show ?thesis by (simp add: file_text_def)
next
  case (Some entries)
  with assms have rd: "readFile_dist pkg (jsFile @ ''.map'') w = Inr text"
    by (simp add: readFile_dist_def file_text_def)
  show ?thesis
  proof (cases "json_parse w text")
    case None
    with rd show ?thesis
      by (simp add: check_map_def io_defs JSON_parse_def map_has_sources_def spec_complaint_def)
  next
    case (Some j)
    with rd show ?thesis
      by (cases "sources_of j")
         (simp_all add: check_map_def io_defs JSON_parse_def map_has_sources_def
            spec_complaint_def)
  qed
qed

lemma validate_file_run:
  assumes "dist w pkg = Some entries" and "jsFile \<in> set (map fst entries)"
  shows "validate_file pkg jsFile w =
     (if spec_file_ok w pkg jsFile then (Inr None, w, [])
      else (Inr (Some False), w, [Log (spec_complaint w pkg jsFile)]))"
proof (cases "file_text w pkg (jsFile @ ''.map'')")
  case None
  then show ?thesis
    by (simp add: validate_file_def Let_def io_defs exists_dist_iff spec_file_ok_def)
next
  case (Some mtext)
  from assms obtain js where js: "file_text w pkg jsFile = Some js"
    by (cases "map_of entries jsFile") (auto simp: file_text_def map_of_eq_None_iff)
  with assms have rd: "readFile_dist pkg jsFile w = Inr js"
    by (simp add: readFile_dist_def file_text_def)
  have cm: "check_map pkg (jsFile @ ''.map'') w =
     (if map_has_sources w mtext then (Inr None, w, [])
      else (Inr (Some False), w, [Log (spec_complaint w pkg jsFile)]))"
    using Some by (rule check_map_run)
  have compl: "map_has_sources w mtext \<Longrightarrow> spec_complaint w pkg jsFile = Missing_reference jsFile"
    using Some assms(1)
    by (auto simp: spec_complaint_def map_has_sources_def readFile_dist_def file_text_def
          JSON_parse_def split: option.splits sum.splits)
  show ?thesis
    using Some js rd cm compl
    by (simp add: validate_file_def Let_def bind_def gets_def lift_def return_def seq_def
          log_msg_def emit_def exists_dist_iff spec_file_ok_def)
qed

lemma for_return_validate:
  assumes "dist w pkg = Some entries" and "set fs \<subseteq> set (map fst entries)"
  shows "for_return fs (validate_file pkg) w =
     (case find (\<lambda>f. \<not> spec_file_ok w pkg f) fs of
        None \<Rightarrow> (Inr None, w, [])
      | Some f \<Rightarrow> (Inr (Some False), w, [Log (spec_complaint w pkg f)]))"
  using assms(2)
proof (induction fs)
  case Nil
  then show ?case by (simp add: return_def)
next
  case (Cons f fs)
  then have f: "f \<in> set (map fst entries)" and fs: "set fs \<subseteq> set (map fst entries)"
    by auto
  have step: "validate_file pkg f w =
     (if spec_file_ok w pkg f then (Inr None, w, [])
      else (Inr (Some False), w, [Log (spec_complaint w pkg f)]))"
    using assms(1) f by (rule validate_file_run)
  have rest: "for_return fs (validate_file pkg) w =
     (case find (\<lambda>f. \<not> spec_file_ok w pkg f) fs of
        None \<Rightarrow> (Inr None, w, [])
      | Some f \<Rightarrow> (Inr (Some False), w, [Log (spec_complaint w pkg f)]))"
    using Cons.IH fs by blast
  show ?case
    using step rest
    by (cases "spec_file_ok w pkg f") (simp_all add: bind_def return_def split: option.splits)
qed

lemma list_all_find_None: "list_all P xs \<longleftrightarrow> find (\<lambda>x. \<not> P x) xs = None"
  by (induction xs) auto

text \<open>
  C8 (as amended). The validator goes through the compiled files of a package in order
  and returns whether every one of them passes \<open>spec_file_ok\<close>: a file without a
  companion map passes as it is, with or without a sourcemap reference; a file with a map
  must have a map that parses with non-empty sources and must itself contain the
  reference. Only the first file that does not pass is reported, the files after it are
  not looked at. A map that does not parse, or whose sources are the empty list, never
  has sources.
\<close>

theorem validateSourcemaps_verdict:
  assumes "dist w pkg = Some entries"
  shows "validateSourcemaps pkg w =
     (Inr (list_all (spec_file_ok w pkg) (filter (\<lambda>f. endsWith f ''.js'') (map fst entries))), w,
      (case find (\<lambda>f. \<not> spec_file_ok w pkg f) (filter (\<lambda>f. endsWith f ''.js'') (map fst entries)) of
         None \<Rightarrow> []
       | Some f \<Rightarrow> [Log (spec_complaint w pkg f)]))
   \<and> (\<forall>t. json_parse w t = None \<longrightarrow> \<not> map_has_sources w t)
   \<and> (\<forall>t kvs. json_parse w t = Some (JObj kvs) \<and> lookup kvs ''sources'' = Val (JArr [])
         \<longrightarrow> \<not> map_has_sources w t)"
proof -
  let ?fs = "filter (\<lambda>f. endsWith f ''.js'') (map fst entries)"
  have sub: "set ?fs \<subseteq> set (map fst entries)" by auto
  have loop: "for_return ?fs (validate_file pkg) w =
     (case find (\<lambda>f. \<not> spec_file_ok w pkg f) ?fs of
        None \<Rightarrow> (Inr None, w, [])
      | Some f \<Rightarrow> (Inr (Some False), w, [Log (spec_complaint w pkg f)]))"
    using assms sub by (rule for_return_validate)
  have rd: "readdir_dist pkg w = Inr (map fst entries)"
    using assms by (simp add: readdir_dist_def)
  have all: "list_all (spec_file_ok w pkg) ?fs \<longleftrightarrow> find (\<lambda>f. \<not> spec_file_ok w pkg f) ?fs = None"
    by (rule list_all_find_None)
  have run: "validateSourcemaps pkg w =
     (Inr (list_all (spec_file_ok w pkg) ?fs), w,
      (case find (\<lambda>f. \<not> spec_file_ok w pkg f) ?fs of
         None \<Rightarrow> []
       | Some f \<Rightarrow> [Log (spec_complaint w pkg f)]))"
    using loop rd all
    by (cases "find (\<lambda>f. \<not> spec_file_ok w pkg f) ?fs")
       (simp_all add: validateSourcemaps_def Let_def bind_def lift_def return_def)
  have unparsed: "\<forall>t. json_parse w t = None \<longrightarrow> \<not> map_has_sources w t"
    by (simp add: map_has_sources_def)
  have empty: "\<forall>t kvs. json_parse w t = Some (JObj kvs) \<and> lookup kvs ''sources'' = Val (JArr [])
         \<longrightarrow> \<not> map_has_sources w t"
    by (simp add: map_has_sources_def)
  from run unparsed empty show ?thesis by (intro conjI)
qed


theorem validateSourcemaps_verdict_witness:
  "validateSourcemaps ''core'' demo_world = (Inr True, demo_world, [])"
  using validateSourcemaps_verdict [of demo_world "''core''"
      "[(''index.js'', ''export const a = 1; //# sourceMappingURL=index.js.map''),
        (''index.js.map'', ''MAP'')]"]
  by (simp add: demo_defs spec_file_ok_def file_text_def map_has_sources_def lookup_def
        endsWith_def suffix_to_prefix)

text \<open>
  C8 as stated fails in its last part: the only compiled file of \<open>app\<close> has no companion
  map and contains no sourcemap reference, and the validator returns true without a
  complaint.
\<close>

theorem file_without_map_needs_no_reference:
  "dist demo_world ''app'' = Some [(''index.js'', ''export const b = 2;'')]
   \<and> \<not> js_includes ''export const b = 2;'' ''sourceMappingURL=''
   \<and> validateSourcemaps ''app'' demo_world = (Inr True, demo_world, [])"
  by (simp add: demo_defs validateSourcemaps_def validate_file_def readdir_dist_def
        exists_dist_def endsWith_def suffix_to_prefix Let_def io_defs)

subsection \<open>Order of installs and load\<close>

lemma keeps_staticD: "keeps_static m \<Longrightarrow> m w = (r, w', es) \<Longrightarrow> static w' = static w"
  unfolding keeps_static_def by blast

lemma keeps_static_return [intro!, simp]: "keeps_static (return x)"
  by (simp add: keeps_static_def return_def)

lemma keeps_static_throw [intro!, simp]: "keeps_static (throw e)"
  by (simp add: keeps_static_def throw_def)

lemma keeps_static_gets [intro!, simp]: "keeps_static (gets f)"
  by (simp add: keeps_static_def gets_def)

lemma keeps_static_lift [intro!, simp]: "keeps_static (lift f)"
  by (simp add: keeps_static_def lift_def)

lemma keeps_static_emit [intro!, simp]: "keeps_static (emit ev)"
  by (simp add: keeps_static_def emit_def)

lemma keeps_static_log_msg [intro!, simp]: "keeps_static (log_msg m)"
  by (simp add: log_msg_def)

lemma keeps_static_logSection [intro!, simp]: "keeps_static (logSection t)"
  by (simp add: logSection_def)

lemma keeps_static_bind [intro!]:
  assumes "keeps_static m" and "\<And>x. keeps_static (k x)"
  shows "keeps_static (bind m k)"
  unfolding keeps_static_def
proof (intro allI impI)
  fix w r w' es
  assume run: "bind m k w = (r, w', es)"
  obtain r1 w1 es1 where m: "m w = (r1, w1, es1)" by (cases "m w") auto
  with assms(1) have s1: "static w1 = static w" by (rule keeps_staticD)
  show "static w' = static w"
  proof (cases r1)
    case (Inl e)
    with run m have "w' = w1" by (simp add: bind_def)
    with s1 show ?thesis by simp
  next
    case (Inr x)
    obtain r2 w2 es2 where k: "k x w1 = (r2, w2, es2)" by (cases "k x w1") auto
    with assms(2) have "static w2 = static w1" by (rule keeps_staticD)
    moreover from run m Inr k have "w' = w2" by (simp add: bind_def)
    ultimately show ?thesis using s1 by simp
  qed
qed

lemma keeps_static_seq [intro!]:
  "keeps_static m \<Longrightarrow> keeps_static k \<Longrightarrow> keeps_static (seq m k)"
  by (simp add: seq_def keeps_static_bind)



lemma keeps_static_for_each [intro!]:
  "(\<And>x. keeps_static (f x)) \<Longrightarrow> keeps_static (for_each xs f)"
  by (induction xs) auto

lemma keeps_static_fold_io [intro!]:
  "(\<And>x s. keeps_static (f x s)) \<Longrightarrow> keeps_static (fold_io f xs s)"
  by (induction xs arbitrary: s) auto

lemma keeps_static_for_return [intro!]:
  "(\<And>x. keeps_static (f x)) \<Longrightarrow> keeps_static (for_return xs f)"
  by (induction xs) (auto split: option.splits)


lemma keeps_static_case_option [intro!]:
  "(x = None \<Longrightarrow> keeps_static a) \<Longrightarrow> (\<And>y. x = Some y \<Longrightarrow> keeps_static (b y))
    \<Longrightarrow> keeps_static (case x of None \<Rightarrow> a | Some y \<Rightarrow> b y)"
  by (cases x) simp_all

lemma keeps_static_prims [intro!, simp]:
  "keeps_static mkdtempSync"
  "keeps_static (rmSync n)"
  "keeps_static (exec_npm_pack pkg)"
  "keeps_static (renameSync pkg f n d)"
  "keeps_static (writeFileSync n f)"
  "keeps_static (exec_npm_install ev n a)"
  "keeps_static (exec_node_import n nm)"
  "keeps_static (declared_name j)"
  "keeps_static (spawn ev tool)"
  "keeps_static (exec_sync ev cmd tool)"
  by (auto simp: keeps_static_def static_def mkdtempSync_def rmSync_def exec_npm_pack_def
        renameSync_def writeFileSync_def exec_npm_install_def exec_node_import_def
        declared_name_def spawn_def exec_sync_def throw_def return_def Let_def
      split: option.splits if_splits)

lemma keeps_static_pack_dependency [intro!, simp]: "keeps_static (pack_dependency t d)"
  unfolding pack_dependency_def by (intro keeps_static_bind keeps_static_seq keeps_static_case_option) simp_all

lemma install_shape_Nil [simp]: "install_shape deps t ok []"
  unfolding install_shape_def by (intro disjI1 exI [of _ 0]) simp

lemma staged_throw [intro!, simp]: "staged deps t (throw e)"
  by (simp add: staged_def throw_def)

lemma staged_bind:
  assumes "emits_only (\<lambda>e. \<not> phase_event e) m" and "keeps_static m"
    and "\<And>x. staged deps t (k x)"
  shows "staged deps t (bind m k)"
  unfolding staged_def
proof (intro allI impI)
  fix w r w' es
  assume run: "bind m k w = (r, w', es)"
  obtain r1 w1 es1 where m: "m w = (r1, w1, es1)" by (cases "m w") auto
  from assms(1) m have quiet: "\<forall>e \<in> set es1. \<not> phase_event e"
    by (auto dest: emits_onlyD)
  from assms(2) m have "static w1 = static w" by (rule keeps_staticD)
  then have same: "npm_install w1 = npm_install w" by (simp add: static_def)
  show "\<exists>A M. es = A @ M \<and> (\<forall>e \<in> set A. \<not> phase_event e)
           \<and> install_shape deps t (npm_install w ''package.tgz'') M"
  proof (cases r1)
    case (Inl e)
    with run m have "es = es1 @ []" by (simp add: bind_def)
    with quiet show ?thesis by (intro exI [of _ es1] exI [of _ "[]"]) simp
  next
    case (Inr x)
    obtain r2 w2 es2 where k: "k x w1 = (r2, w2, es2)" by (cases "k x w1") auto
    with assms(3) [of x] obtain A M where
      es2: "es2 = A @ M" and A: "\<forall>e \<in> set A. \<not> phase_event e"
      and M: "install_shape deps t (npm_install w1 ''package.tgz'') M"
      unfolding staged_def by blast
    from run m Inr k es2 have "es = (es1 @ A) @ M" by (simp add: bind_def)
    with quiet A M same show ?thesis
      by (intro exI [of _ "es1 @ A"] exI [of _ M]) auto
  qed
qed

lemma staged_seq:
  "emits_only (\<lambda>e. \<not> phase_event e) m \<Longrightarrow> keeps_static m \<Longrightarrow> staged deps t k
    \<Longrightarrow> staged deps t (seq m k)"
  by (simp add: seq_def staged_bind)

lemma staged_case_option:
  "(x = None \<Longrightarrow> staged deps t a) \<Longrightarrow> (\<And>y. x = Some y \<Longrightarrow> staged deps t (b y))
    \<Longrightarrow> staged deps t (case x of None \<Rightarrow> a | Some y \<Rightarrow> b y)"
  by (cases x) simp_all

text \<open>The loop of installs changes nothing; it stops at the first install that fails.\<close>

lemma install_loop_run:
  "\<exists>r k. for_each deps (install_dependency t) w = (r, w, map (Npm_install_dep t) (take k deps))
     \<and> (r = Inr () \<longrightarrow> k = length deps)"
proof (induction deps)
  case Nil
  show ?case by (simp add: return_def)
next
  case (Cons d deps)
  obtain r k where rest:
    "for_each deps (install_dependency t) w = (r, w, map (Npm_install_dep t) (take k deps))"
    and full: "r = Inr () \<longrightarrow> k = length deps"
    using Cons.IH by blast
  show ?case
  proof (cases "fst (install_dependency t d w)")
    case (Inl e)
    then have "install_dependency t d w = (Inl e, w, [Npm_install_dep t d])"
      by (auto simp: install_dependency_def exec_npm_install_def split: if_splits)
    then have "for_each (d # deps) (install_dependency t) w
        = (Inl e, w, map (Npm_install_dep t) (take 1 (d # deps)))"
      by (simp add: bind_def)
    then show ?thesis by blast
  next
    case (Inr u)
    then have "install_dependency t d w = (Inr (), w, [Npm_install_dep t d])"
      by (auto simp: install_dependency_def exec_npm_install_def split: if_splits)
    with rest have "for_each (d # deps) (install_dependency t) w
        = (r, w, map (Npm_install_dep t) (take (Suc k) (d # deps)))"
      by (simp add: bind_def)
    with full show ?thesis by (intro exI [of _ r] exI [of _ "Suc k"]) simp
  qed
qed

lemma staged_install_and_verify: "staged deps t (install_and_verify deps t nm)"
  unfolding staged_def
proof (intro allI impI)
  fix w r w' es
  assume run: "install_and_verify deps t nm w = (r, w', es)"
  obtain r1 k where loop:
    "for_each deps (install_dependency t) w = (r1, w, map (Npm_install_dep t) (take k deps))"
    and full: "r1 = Inr () \<longrightarrow> k = length deps"
    using install_loop_run by blast
  have "install_shape deps t (npm_install w ''package.tgz'') es"
  proof (cases r1)
    case (Inl e)
    with run loop have "es = map (Npm_install_dep t) (take k deps)"
      by (simp add: install_and_verify_def seq_def bind_def)
    then show ?thesis unfolding install_shape_def by blast
  next
    case (Inr u)
    with full have k: "take k deps = deps" by simp
    show ?thesis
    proof (cases "fst (exec_npm_install (Npm_install_target t) t ''package.tgz'' w)")
      case (Inl e)
      then have "exec_npm_install (Npm_install_target t) t ''package.tgz'' w
          = (Inl e, w, [Npm_install_target t])"
        by (auto simp: exec_npm_install_def split: if_splits)
      with run loop Inr k have "es = map (Npm_install_dep t) deps @ Npm_install_target t # []"
        by (simp add: install_and_verify_def seq_def bind_def)
      then show ?thesis unfolding install_shape_def by blast
    next
      case (Inr u2)
      then have tgt: "exec_npm_install (Npm_install_target t) t ''package.tgz'' w
          = (Inr (), w, [Npm_install_target t])" and ok: "npm_install w ''package.tgz''"
        by (auto simp: exec_npm_install_def split: if_splits)
      have "\<exists>r3. exec_node_import t nm w = (r3, w, [Node_import t nm])"
        by (simp add: exec_node_import_def)
      then obtain r3 where imp: "exec_node_import t nm w = (r3, w, [Node_import t nm])"
        by blast
      from run loop \<open>r1 = Inr u\<close> k tgt imp
      have "es = map (Npm_install_dep t) deps @ Npm_install_target t # [Node_import t nm]"
        by (cases r3) (simp_all add: install_and_verify_def seq_def bind_def return_def)
      with ok show ?thesis unfolding install_shape_def by blast
    qed
  qed
  then show "\<exists>A M. es = A @ M \<and> (\<forall>e \<in> set A. \<not> phase_event e)
           \<and> install_shape deps t (npm_install w ''package.tgz'') M"
    by (intro exI [of _ "[]"] exI [of _ es]) simp
qed

lemma quiet_prims [simp]:
  "emits_only (\<lambda>e. \<not> phase_event e) (pack_dependency t d)"
  unfolding pack_dependency_def
  by (intro emits_only_bind emits_only_seq emits_only_case_option) simp_all

lemma staged_after_deps:
  "staged deps t
     (seq (for_each deps (pack_dependency t))
    (seq (exec_npm_pack pkgName)
    (bind (declared_name pkgJson) (\<lambda>pkgJsonName.
     bind (gets (find_tarball pkgName (safe_name pkgJsonName))) (\<lambda>tarball.
       case tarball of
         None \<Rightarrow> throw (Error (''Failed to create tarball for '' @ pkgName))
       | Some tb \<Rightarrow>
           seq (renameSync pkgName tb t ''package.tgz'')
          (seq (writeFileSync t ''package.json'')
               (install_and_verify deps t pkgJsonName)))))))"
  by (intro staged_seq staged_bind staged_case_option staged_install_and_verify staged_throw
        emits_only_for_each keeps_static_for_each)
     simp_all

lemma split_unique:
  "a @ x # b = c @ y # d \<Longrightarrow> x \<notin> set c \<Longrightarrow> x \<notin> set d \<Longrightarrow> a = c \<and> x = y \<and> b = d"
proof (induction a arbitrary: c)
  case Nil
  then show ?case by (cases c) auto
next
  case (Cons h a)
  show ?case
  proof (cases c)
    case Nil
    with Cons.prems have "a @ x # b = d" by simp
    then have "x \<in> set d" by auto
    with Cons.prems show ?thesis by simp
  next
    case (Cons z c')
    with Cons.prems Cons.IH [of c'] show ?thesis by simp
  qed
qed

lemma install_shape_phase: "install_shape deps t ok M \<Longrightarrow> \<forall>e \<in> set M. phase_event e"
  unfolding install_shape_def by auto

lemma filter_phase_middle:
  assumes "\<forall>e \<in> set A. \<not> phase_event e" and "\<forall>e \<in> set B. \<not> phase_event e"
    and "\<forall>e \<in> set M. phase_event e"
  shows "filter phase_event (A @ M @ B) = M"
proof -
  from assms(1) have "filter phase_event A = []" by (simp add: filter_empty_conv)
  moreover from assms(2) have "filter phase_event B = []" by (simp add: filter_empty_conv)
  moreover from assms(3) have "filter phase_event M = M" by (simp add: filter_id_conv)
  ultimately show ?thesis by simp
qed

lemma getWorkspaceDependencies_static:
  "static w' = static w \<Longrightarrow> getWorkspaceDependencies m w' = getWorkspaceDependencies m w"
  by (simp add: static_def getWorkspaceDependencies_def getPackagesWithDist_def
        getPackageJson_def)

lemma bind_lift:
  "bind (lift f) k w = (case f w of Inl e \<Rightarrow> (Inl e, w, []) | Inr x \<Rightarrow> k x w)"
  by (cases "f w"; cases "k (projr (f w)) w") (simp_all add: bind_def lift_def)

lemma install_shape_target:
  "install_shape deps t ok M \<Longrightarrow> Npm_install_target t' \<in> set M \<Longrightarrow>
     \<exists>post. M = map (Npm_install_dep t) deps @ Npm_install_target t # post
        \<and> (post = [] \<or> (\<exists>nm. post = [Node_import t nm]))"
  unfolding install_shape_def by (elim disjE exE conjE) auto

lemma install_shape_import:
  "install_shape deps t ok M \<Longrightarrow> Node_import t' nm' \<in> set M \<Longrightarrow>
     ok \<and> (\<exists>nm. M = (map (Npm_install_dep t) deps @ [Npm_install_target t]) @ Node_import t nm # [])"
  unfolding install_shape_def by (elim disjE exE conjE) auto

lemma body_shape:
  assumes "import_test_body pkgName pkgJson t w = (r, w', es)"
  shows "es = []
     \<or> (\<exists>deps A M. getWorkspaceDependencies pkgJson w = Inr deps \<and> es = A @ M
           \<and> (\<forall>e \<in> set A. \<not> phase_event e)
           \<and> install_shape deps t (npm_install w ''package.tgz'') M)"
proof (cases "getWorkspaceDependencies pkgJson w")
  case (Inl e)
  with assms have "es = []"
    by (simp add: import_test_body_def bind_def lift_def)
  then show ?thesis by simp
next
  case (Inr deps)
  let ?rest = "seq (for_each deps (pack_dependency t))
    (seq (exec_npm_pack pkgName)
    (bind (declared_name pkgJson) (\<lambda>pkgJsonName.
     bind (gets (find_tarball pkgName (safe_name pkgJsonName))) (\<lambda>tarball.
       case tarball of
         None \<Rightarrow> throw (Error (''Failed to create tarball for '' @ pkgName))
       | Some tb \<Rightarrow>
           seq (renameSync pkgName tb t ''package.tgz'')
          (seq (writeFileSync t ''package.json'')
               (install_and_verify deps t pkgJsonName))))))"
  have "import_test_body pkgName pkgJson t w = ?rest w"
    by (simp only: import_test_body_def bind_lift Inr sum.case)
  with assms have "?rest w = (r, w', es)" by simp
  with staged_after_deps [of deps t pkgName pkgJson] Inr show ?thesis
    unfolding staged_def by blast
qed

lemma test_shape:
  assumes "testPackageImports pkgName w = (r, w', es)"
  shows "(\<forall>e \<in> set es. \<not> phase_event e)
     \<or> (\<exists>pkgJson deps A M B.
           manifest w pkgName = Some pkgJson \<and> getWorkspaceDependencies pkgJson w = Inr deps
           \<and> es = A @ M @ B
           \<and> (\<forall>e \<in> set A. \<not> phase_event e) \<and> (\<forall>e \<in> set B. \<not> phase_event e)
           \<and> install_shape deps (next_tmp w) (npm_install w ''package.tgz'') M)"
proof (cases "manifest w pkgName")
  case None
  with assms have "es = []"
    by (simp add: testPackageImports_def bind_def lift_def getPackageJson_def)
  then show ?thesis by simp
next
  case (Some pkgJson)
  show ?thesis
  proof (cases "is_private pkgJson")
    case True
    with assms Some have "es = [Log Skipped_private]"
      by (simp add: testPackageImports_def bind_def lift_def getPackageJson_def seq_def
            log_msg_def emit_def return_def)
    then show ?thesis by simp
  next
    case False
    let ?n = "next_tmp w"
    let ?w0 = "w\<lparr>sandboxes := (sandboxes w)(?n \<mapsto> []), next_tmp := Suc ?n\<rparr>"
    have st: "static ?w0 = static w" by (simp add: static_def)
    obtain r1 w1 es1 where body: "import_test_body pkgName pkgJson ?n ?w0 = (r1, w1, es1)"
      by (cases "import_test_body pkgName pkgJson ?n ?w0") auto
    have "\<exists>L. es = Mkdtemp ?n # es1 @ L @ [Rm ?n] \<and> (\<forall>e \<in> set L. \<not> phase_event e)"
    proof (cases r1)
      case (Inl e)
      with assms Some False body
      have "es = Mkdtemp ?n # es1 @ [Log (Import_failed (message e))] @ [Rm ?n]"
        by (simp add: testPackageImports_def bind_def lift_def getPackageJson_def
              mkdtempSync_def Let_def finally_do_def try_catch_def rmSync_def seq_def
              log_msg_def emit_def return_def)
      then show ?thesis by (intro exI [of _ "[Log (Import_failed (message e))]"]) simp
    next
      case (Inr b)
      with assms Some False body
      have "es = Mkdtemp ?n # es1 @ [] @ [Rm ?n]"
        by (simp add: testPackageImports_def bind_def lift_def getPackageJson_def
              mkdtempSync_def Let_def finally_do_def try_catch_def rmSync_def)
      then show ?thesis by (intro exI [of _ "[]"]) simp
    qed
    then obtain L where es: "es = Mkdtemp ?n # es1 @ L @ [Rm ?n]"
      and L: "\<forall>e \<in> set L. \<not> phase_event e" by blast
    from body_shape [OF body] show ?thesis
    proof
      assume "es1 = []"
      with es L show ?thesis by auto
    next
      assume "\<exists>deps A M. getWorkspaceDependencies pkgJson ?w0 = Inr deps \<and> es1 = A @ M
           \<and> (\<forall>e \<in> set A. \<not> phase_event e)
           \<and> install_shape deps ?n (npm_install ?w0 ''package.tgz'') M"
      then obtain deps A M where deps: "getWorkspaceDependencies pkgJson ?w0 = Inr deps"
        and es1: "es1 = A @ M" and A: "\<forall>e \<in> set A. \<not> phase_event e"
        and M: "install_shape deps ?n (npm_install ?w0 ''package.tgz'') M" by blast
      from deps have deps': "getWorkspaceDependencies pkgJson w = Inr deps"
        by (simp only: getWorkspaceDependencies_static [OF st])
      from M have M': "install_shape deps ?n (npm_install w ''package.tgz'') M" by simp
      from es es1 have "es = (Mkdtemp ?n # A) @ M @ (L @ [Rm ?n])" by simp
      moreover from A have "\<forall>e \<in> set (Mkdtemp ?n # A). \<not> phase_event e" by simp
      moreover from L have "\<forall>e \<in> set (L @ [Rm ?n]). \<not> phase_event e" by simp
      ultimately have "\<exists>pkgJson deps A M B.
           manifest w pkgName = Some pkgJson \<and> getWorkspaceDependencies pkgJson w = Inr deps
           \<and> es = A @ M @ B
           \<and> (\<forall>e \<in> set A. \<not> phase_event e) \<and> (\<forall>e \<in> set B. \<not> phase_event e)
           \<and> install_shape deps (next_tmp w) (npm_install w ''package.tgz'') M"
        using Some deps' M' by (intro exI conjI)
      then show ?thesis by (rule disjI2)
    qed
  qed
qed

text \<open>
  C9. In the events of one import test, cut at the install of the target: nothing after
  the cut is an install of a dependency, and the install-phase events before the cut are
  exactly the installs of the workspace dependencies of the package, in order. Cut at
  the module load: the install of the target is before the cut, no install of a
  dependency is after it, and the install of the target had succeeded.
\<close>

theorem installs_before_target_before_load:
  assumes "testPackageImports pkgName w = (r, w', es)"
  shows "(\<forall>xs ys t. es = xs @ Npm_install_target t # ys \<longrightarrow>
            (\<forall>t' d. Npm_install_dep t' d \<notin> set ys)
            \<and> (\<exists>pkgJson deps. manifest w pkgName = Some pkgJson
                  \<and> getWorkspaceDependencies pkgJson w = Inr deps
                  \<and> filter phase_event xs = map (Npm_install_dep t) deps))
       \<and> (\<forall>xs ys t nm. es = xs @ Node_import t nm # ys \<longrightarrow>
            Npm_install_target t \<in> set xs
            \<and> (\<forall>t' d. Npm_install_dep t' d \<notin> set ys)
            \<and> npm_install w ''package.tgz'')"
proof -
  let ?n = "next_tmp w"
  have key: "\<exists>pkgJson deps. manifest w pkgName = Some pkgJson
       \<and> getWorkspaceDependencies pkgJson w = Inr deps
       \<and> install_shape deps ?n (npm_install w ''package.tgz'') (filter phase_event es)"
    if e: "e \<in> set es" "phase_event e" for e
  proof -
    from test_shape [OF assms] show ?thesis
    proof
      assume "\<forall>e \<in> set es. \<not> phase_event e"
      with e show ?thesis by simp
    next
      assume "\<exists>pkgJson deps A M B.
           manifest w pkgName = Some pkgJson \<and> getWorkspaceDependencies pkgJson w = Inr deps
           \<and> es = A @ M @ B
           \<and> (\<forall>e \<in> set A. \<not> phase_event e) \<and> (\<forall>e \<in> set B. \<not> phase_event e)
           \<and> install_shape deps ?n (npm_install w ''package.tgz'') M"
      then obtain pkgJson deps A M B where
        m: "manifest w pkgName = Some pkgJson"
        and d: "getWorkspaceDependencies pkgJson w = Inr deps"
        and es: "es = A @ M @ B"
        and A: "\<forall>e \<in> set A. \<not> phase_event e" and B: "\<forall>e \<in> set B. \<not> phase_event e"
        and M: "install_shape deps ?n (npm_install w ''package.tgz'') M"
        by (elim exE conjE)
      from M have "\<forall>e \<in> set M. phase_event e" by (rule install_shape_phase)
      with A B have "filter phase_event (A @ M @ B) = M" by (rule filter_phase_middle)
      with es M have "install_shape deps ?n (npm_install w ''package.tgz'') (filter phase_event es)"
        by simp
      with m d show ?thesis by (intro exI conjI)
    qed
  qed
  have no_dep: "\<forall>t' d. Npm_install_dep t' d \<notin> set ys"
    if "filter phase_event ys = post" "post = [] \<or> (\<exists>nm. post = [Node_import ?n nm])"
    for ys post
  proof (intro allI notI)
    fix t' d assume "Npm_install_dep t' d \<in> set ys"
    then have "Npm_install_dep t' d \<in> set (filter phase_event ys)" by simp
    with that show False by auto
  qed
  have part1: "\<forall>xs ys t. es = xs @ Npm_install_target t # ys \<longrightarrow>
            (\<forall>t' d. Npm_install_dep t' d \<notin> set ys)
            \<and> (\<exists>pkgJson deps. manifest w pkgName = Some pkgJson
                  \<and> getWorkspaceDependencies pkgJson w = Inr deps
                  \<and> filter phase_event xs = map (Npm_install_dep t) deps)"
  proof (intro allI impI)
    fix xs ys t
    assume split: "es = xs @ Npm_install_target t # ys"
    then have "Npm_install_target t \<in> set es" by simp
    moreover have "phase_event (Npm_install_target t)" by simp
    ultimately obtain pkgJson deps where
      m: "manifest w pkgName = Some pkgJson"
      and deps: "getWorkspaceDependencies pkgJson w = Inr deps"
      and M: "install_shape deps ?n (npm_install w ''package.tgz'') (filter phase_event es)"
      using key by blast
    have f: "filter phase_event es
        = filter phase_event xs @ Npm_install_target t # filter phase_event ys"
      by (simp add: split)
    then have "Npm_install_target t \<in> set (filter phase_event es)" by simp
    with M obtain post where
      full: "filter phase_event es = map (Npm_install_dep ?n) deps @ Npm_install_target ?n # post"
      and post: "post = [] \<or> (\<exists>nm. post = [Node_import ?n nm])"
      using install_shape_target by blast
    from post have "Npm_install_target t \<notin> set post" by auto
    moreover have "Npm_install_target t \<notin> set (map (Npm_install_dep ?n) deps)" by auto
    moreover from f full have
      "filter phase_event xs @ Npm_install_target t # filter phase_event ys
         = map (Npm_install_dep ?n) deps @ Npm_install_target ?n # post" by simp
    ultimately have parts: "filter phase_event xs = map (Npm_install_dep ?n) deps
        \<and> Npm_install_target t = Npm_install_target ?n \<and> filter phase_event ys = post"
      by (intro split_unique)
    with post have a: "\<forall>t' d. Npm_install_dep t' d \<notin> set ys"
      by (intro no_dep [of ys post]) simp_all
    from parts have "filter phase_event xs = map (Npm_install_dep t) deps" by simp
    with m deps
    have b: "\<exists>pkgJson deps. manifest w pkgName = Some pkgJson
                  \<and> getWorkspaceDependencies pkgJson w = Inr deps
                  \<and> filter phase_event xs = map (Npm_install_dep t) deps"
      by (intro exI conjI)
    from a b show "(\<forall>t' d. Npm_install_dep t' d \<notin> set ys)
            \<and> (\<exists>pkgJson deps. manifest w pkgName = Some pkgJson
                  \<and> getWorkspaceDependencies pkgJson w = Inr deps
                  \<and> filter phase_event xs = map (Npm_install_dep t) deps)"
      by (rule conjI)
  qed
  have part2: "\<forall>xs ys t nm. es = xs @ Node_import t nm # ys \<longrightarrow>
            Npm_install_target t \<in> set xs
            \<and> (\<forall>t' d. Npm_install_dep t' d \<notin> set ys)
            \<and> npm_install w ''package.tgz''"
  proof (intro allI impI)
    fix xs ys t nm
    assume split: "es = xs @ Node_import t nm # ys"
    then have "Node_import t nm \<in> set es" by simp
    moreover have "phase_event (Node_import t nm)" by simp
    ultimately obtain pkgJson deps where
      M: "install_shape deps ?n (npm_install w ''package.tgz'') (filter phase_event es)"
      using key by blast
    have f: "filter phase_event es
        = filter phase_event xs @ Node_import t nm # filter phase_event ys"
      by (simp add: split)
    then have "Node_import t nm \<in> set (filter phase_event es)" by simp
    with M obtain nm' where ok: "npm_install w ''package.tgz''"
      and full: "filter phase_event es
        = (map (Npm_install_dep ?n) deps @ [Npm_install_target ?n]) @ Node_import ?n nm' # []"
      using install_shape_import by blast
    have "Node_import t nm \<notin> set (map (Npm_install_dep ?n) deps @ [Npm_install_target ?n])"
      by auto
    moreover have "Node_import t nm \<notin> set ([]::event list)" by simp
    moreover from f full have
      "filter phase_event xs @ Node_import t nm # filter phase_event ys
        = (map (Npm_install_dep ?n) deps @ [Npm_install_target ?n]) @ Node_import ?n nm' # []"
      by simp
    ultimately have parts:
      "filter phase_event xs = map (Npm_install_dep ?n) deps @ [Npm_install_target ?n]
        \<and> Node_import t nm = Node_import ?n nm' \<and> filter phase_event ys = []"
      by (intro split_unique)
    then have "Npm_install_target t \<in> set (filter phase_event xs)" by simp
    then have a: "Npm_install_target t \<in> set xs" by simp
    from parts have b: "\<forall>t' d. Npm_install_dep t' d \<notin> set ys"
      by (intro no_dep [of ys "[]"]) simp_all
    from a b ok show "Npm_install_target t \<in> set xs
            \<and> (\<forall>t' d. Npm_install_dep t' d \<notin> set ys)
            \<and> npm_install w ''package.tgz''"
      by (intro conjI)
  qed
  from part1 part2 show ?thesis by (rule conjI)
qed


theorem installs_before_target_before_load_witness:
  "\<exists>r w' xs ys.
     testPackageImports ''app'' demo_world = (r, w', xs @ Npm_install_target 0 # ys)
     \<and> (\<forall>t' d. Npm_install_dep t' d \<notin> set ys)
     \<and> filter phase_event xs = [Npm_install_dep 0 ''core'']"
proof -
  let ?xs = "[Mkdtemp 0, Npm_pack ''core'', Rename ''core'' ''o-core-1.0.0.tgz'' 0 ''core.tgz'',
              Npm_pack ''app'', Rename ''app'' ''o-app-1.0.0.tgz'' 0 ''package.tgz'',
              Write_file 0 ''package.json'', Npm_install_dep 0 ''core'']"
  let ?ys = "[Node_import 0 ''@o/app'', Rm 0]"
  obtain r w' es where run: "testPackageImports ''app'' demo_world = (r, w', es)"
    by (cases "testPackageImports ''app'' demo_world") auto
  have "snd (snd (testPackageImports ''app'' demo_world)) = ?xs @ Npm_install_target 0 # ?ys"
    by (simp add: demo_defs run_defs io_defs)
  with run have es: "es = ?xs @ Npm_install_target 0 # ?ys" by simp
  with installs_before_target_before_load [OF run]
  have "\<forall>t' d. Npm_install_dep t' d \<notin> set ?ys" by blast
  moreover have "filter phase_event ?xs = [Npm_install_dep 0 ''core'']" by simp
  ultimately show ?thesis using run es by blast
qed

subsection \<open>A dependency whose archive is not found\<close>

text \<open>
  C3. When the archive of the package under test is not found, line 209 throws and the
  test fails. For a workspace dependency the lookup at line 192 has no such branch. In
  \<open>unpacked_world\<close> no archive of \<open>core\<close> is found after packing it; the test of
  \<open>app\<close> goes on, packs and moves the archive of \<open>app\<close>, and fails only when the
  install of \<open>./core.tgz\<close> fails. In \<open>collide_world\<close> the dependency lives in the
  directory \<open>package\<close>, so the install of \<open>./package.tgz\<close> finds the archive of the
  package under test instead; when the package manager then succeeds (it can take the
  dependency from elsewhere), the test returns true.
\<close>

theorem missing_dependency_archive_is_skipped:
  "find_tarball ''core'' (safe_name ''@o/core'')
       (fst (snd (exec_npm_pack ''core'' unpacked_world))) = None
   \<and> fst (testPackageImports ''app'' unpacked_world) = Inr False
   \<and> snd (snd (testPackageImports ''app'' unpacked_world)) =
       [Mkdtemp 0, Npm_pack ''core'', Npm_pack ''app'',
        Rename ''app'' ''o-app-1.0.0.tgz'' 0 ''package.tgz'', Write_file 0 ''package.json'',
        Npm_install_dep 0 ''core'',
        Log (Import_failed ''Command failed: npm install ./core.tgz''), Rm 0]
   \<and> find_tarball ''package'' (safe_name ''@o/dep'')
       (fst (snd (exec_npm_pack ''package'' collide_world))) = None
   \<and> fst (testPackageImports ''app'' collide_world) = Inr True
   \<and> snd (snd (testPackageImports ''app'' collide_world)) =
       [Mkdtemp 0, Npm_pack ''package'', Npm_pack ''app'',
        Rename ''app'' ''o-app-1.0.0.tgz'' 0 ''package.tgz'', Write_file 0 ''package.json'',
        Npm_install_dep 0 ''package'', Npm_install_target 0, Node_import 0 ''@o/app'', Rm 0]"
  by (simp add: unpacked_world_def collide_world_def dep_manifest_def user_manifest_def
        demo_defs run_defs io_defs)

subsection \<open>The orchestrator\<close>














lemma getPackagesWithDist_static:
  "static w' = static w \<Longrightarrow> getPackagesWithDist w' = getPackagesWithDist w"
  by (simp add: static_def getPackagesWithDist_def)







end
